theory Spec2Isabelle
  imports Main
begin

section \<open>Python strings\<close>

text \<open>
  A Python string (a byte \<open>str\<close> or a \<open>unicode\<close>) is a \<^typ>\<open>string\<close>: one
  \<^typ>\<open>char\<close> per element of the Python string, so \<^const>\<open>length\<close> is Python's
  \<open>len\<close>. An attribute that may hold \<open>None\<close> is an \<open>option\<close>.
  Which characters \<open>split()\<close> and \<open>strip()\<close> treat as whitespace depends on the string
  type (six characters for \<open>str\<close>, more for \<open>unicode\<close>); the functions below take this
  class as the predicate \<open>ws\<close>.
\<close>

definition py_prefix :: "int \<Rightarrow> 'a list \<Rightarrow> 'a list" where
  \<comment> \<open>\<open>s[:k]\<close>: a negative bound counts from the end.\<close>
  "py_prefix k s = (if k < 0 then take (nat (int (length s) + k)) s else take (nat k) s)"

definition py_suffix :: "nat \<Rightarrow> 'a list \<Rightarrow> 'a list" where
  \<comment> \<open>\<open>s[-n:]\<close> for \<open>n > 0\<close>: the last \<open>n\<close> elements, the whole string when it is shorter.\<close>
  "py_suffix n s = drop (length s - n) s"

definition py_rstrip :: "(char \<Rightarrow> bool) \<Rightarrow> string \<Rightarrow> string" where
  "py_rstrip ws s = rev (dropWhile ws (rev s))"

definition py_strip :: "(char \<Rightarrow> bool) \<Rightarrow> string \<Rightarrow> string" where
  \<comment> \<open>\<open>s.strip()\<close>: leading and trailing whitespace removed.\<close>
  "py_strip ws s = py_rstrip ws (dropWhile ws s)"

function py_split :: "(char \<Rightarrow> bool) \<Rightarrow> string \<Rightarrow> string list" where
  \<comment> \<open>\<open>s.split()\<close>: the maximal whitespace-free substrings, in order; none of them is empty.\<close>
  "py_split ws s =
     (let r = dropWhile ws s in
      if r = [] then []
      else takeWhile (\<lambda>c. \<not> ws c) r # py_split ws (dropWhile (\<lambda>c. \<not> ws c) r))"
  by pat_completeness auto
termination
proof (relation "measure (\<lambda>(ws, s). length s)")
  show "wf (measure (\<lambda>(ws, s). length s))" by simp
next
  fix ws :: "char \<Rightarrow> bool" and s r :: string
  assume r: "r = dropWhile ws s" and ne: "r \<noteq> []"
  from ne obtain c cs where rc: "r = c # cs" by (cases r) auto
  with r ne have "\<not> ws c" by (metis hd_dropWhile list.sel(1))
  then have "length (dropWhile (\<lambda>c. \<not> ws c) r) \<le> length cs"
    using rc by (simp add: length_dropWhile_le)
  moreover have "length r \<le> length s" using r by (simp add: length_dropWhile_le)
  ultimately show "((ws, dropWhile (\<lambda>c. \<not> ws c) r), (ws, s)) \<in> measure (\<lambda>(ws, s). length s)"
    using rc by simp
qed

declare py_split.simps [simp del]

fun py_join :: "string \<Rightarrow> string list \<Rightarrow> string" where
  \<comment> \<open>\<open>sep.join(words)\<close>\<close>
  "py_join sep [] = []"
| "py_join sep [w] = w"
| "py_join sep (w # v # ws) = w @ sep @ py_join sep (v # ws)"

definition CR :: char where "CR = CHR 0x0D"
definition LF :: char where "LF = CHR 0x0A"

fun replace_crlf :: "string \<Rightarrow> string" where
  \<comment> \<open>\<open>s.replace('\r\n', '\n')\<close>\<close>
  "replace_crlf (a # b # cs) =
     (if a = CR \<and> b = LF then LF # replace_crlf cs else a # replace_crlf (b # cs))"
| "replace_crlf cs = cs"

definition replace_cr :: "string \<Rightarrow> string" where
  \<comment> \<open>\<open>s.replace('\r', '\n')\<close>\<close>
  "replace_cr s = map (\<lambda>c. if c = CR then LF else c) s"

definition startswith :: "string \<Rightarrow> string \<Rightarrow> bool" where
  "startswith s p = (take (length p) s = p)"

definition truthy :: "string option \<Rightarrow> bool" where
  \<comment> \<open>Python's truth value of a string or \<open>None\<close>.\<close>
  "truthy s = (case s of None \<Rightarrow> False | Some t \<Rightarrow> t \<noteq> [])"

definition ascii_space :: "char \<Rightarrow> bool" where
  \<comment> \<open>The whitespace of a byte string: space, tab, newline, vertical tab, form feed, return.\<close>
  "ascii_space c = (c = CHR '' '' \<or> c = CHR 0x09 \<or> c = CHR 0x0A \<or> c = CHR 0x0B
                     \<or> c = CHR 0x0C \<or> c = CHR 0x0D)"

definition unicode_space :: "char \<Rightarrow> bool" where
  \<comment> \<open>The whitespace of a unicode string among the code points below 256: the six above,
      U+001C to U+001F, U+0085 and U+00A0.\<close>
  "unicode_space c = (ascii_space c \<or> c = CHR 0x1C \<or> c = CHR 0x1D \<or> c = CHR 0x1E
                       \<or> c = CHR 0x1F \<or> c = CHR 0x85 \<or> c = CHR 0xA0)"

section \<open>Filename truncation\<close>

text \<open>
  \<^verbatim>\<open>
  def _trim_filename(s, mid, max_len=64):
      if s and len(s) > max_len:
          log.warning(...)
          return s[:max_len - 8] + s[-8:]  # Keep extension
      return s
  \<close>
  The message id \<open>mid\<close> is only logged. Both callers use the default \<open>max_len\<close>.
\<close>

definition trim_filename_len :: "string option \<Rightarrow> int \<Rightarrow> string option" where
  "trim_filename_len s max_len =
     (case s of
        None \<Rightarrow> None
      | Some f \<Rightarrow>
          if f \<noteq> [] \<and> int (length f) > max_len
          then Some (py_prefix (max_len - 8) f @ py_suffix 8 f)
          else Some f)"

definition trim_filename :: "string option \<Rightarrow> string option" where
  "trim_filename s = trim_filename_len s 64"

section \<open>Exceptions\<close>

text \<open>
  The exception classes the handlers of \<open>create_from_synced\<close> tell apart. A constructor
  stands for the class and its subclasses (\<open>UnicodeDecodeError\<close> and
  \<open>UnicodeEncodeError\<close> are \<open>ValueError\<close>s); \<open>OtherException\<close> is any class that no
  handler names (\<open>KeyError\<close>, \<open>IndexError\<close>, \<open>IOError\<close>, ...).
\<close>

datatype exn =
    DecodingError | AttributeError | RuntimeError | TypeError | ValueError
  | AssertionError | MalformedEventError | OtherException

section \<open>Data model\<close>

type_synonym address = "string \<times> string"  \<comment> \<open>(phrase, email address)\<close>
type_synonym timestamp = nat

record block =
  block_namespace_id :: "nat option"
  content_type :: "string option"
  filename :: "string option"
  data :: "string option"

record part =
  block :: block
  walk_index :: "nat option"
  content_disposition :: "string option"
  content_id :: "string option"

text \<open>
  The columns of \<open>Message\<close> that \<open>create_from_synced\<close> and the properties below read or
  write. A column that was never assigned reads as \<open>None\<close>; \<open>decode_error\<close> is only ever
  set to \<open>True\<close> and tested for truth, so unset is \<open>False\<close>. \<open>parts\<close> is the list the
  \<open>Part.message\<close> back-reference maintains, in order of creation.
\<close>

record message =
  namespace_id :: "nat option"
  from_addr :: "address list option"
  sender_addr :: "address list option"
  reply_to :: "address list option"
  to_addr :: "address list option"
  cc_addr :: "address list option"
  bcc_addr :: "address list option"
  in_reply_to :: "string option"
  message_id_header :: "string option"
  subject :: "string option"
  received_date :: "timestamp option"
  size_attr :: "nat option"
  data_sha256 :: "string option"
  sanitized_body :: "string option"
  snippet :: "string option"
  full_body :: "block option"
  decode_error :: bool
  inbox_uid :: "string option"
  references :: "string list option"
  parts :: "part list"

definition Message :: message where
  \<comment> \<open>\<open>Message()\<close>: nothing assigned yet.\<close>
  "Message = \<lparr> namespace_id = None, from_addr = None, sender_addr = None, reply_to = None,
      to_addr = None, cc_addr = None, bcc_addr = None, in_reply_to = None,
      message_id_header = None, subject = None, received_date = None, size_attr = None,
      data_sha256 = None, sanitized_body = None, snippet = None, full_body = None,
      decode_error = False, inbox_uid = None, references = None, parts = [] \<rparr>"

record account =
  account_id :: nat
  account_namespace :: "nat option"  \<comment> \<open>\<open>account.namespace.id\<close>, \<open>None\<close> without a namespace\<close>

datatype py_string = Str string | Unicode string

section \<open>The tokenizer's answers and the configuration\<close>

text \<open>
  \<open>flanker.mime\<close>, \<open>inbox.util\<close>, \<open>inbox.config\<close> and \<open>inbox.events.ical\<close> are not
  part of the source at hand. What \<open>create_from_synced\<close> asks of them is taken as given:
  every call or attribute the code evaluates is a field holding the value it yields or the
  exception it raises.
\<close>

record mimepart =
  mp_content_type_value :: string        \<comment> \<open>\<open>content_type.value\<close>\<close>
  mp_is_multipart :: bool                \<comment> \<open>\<open>content_type.is_multipart()\<close>\<close>
  mp_format_type :: string               \<comment> \<open>\<open>content_type.format_type\<close>\<close>
  mp_subtype :: string                   \<comment> \<open>\<open>content_type.subtype\<close>\<close>
  mp_name :: "string option"             \<comment> \<open>\<open>content_type.params.get('name')\<close>\<close>
  mp_disposition :: "string option"      \<comment> \<open>\<open>content_disposition[0]\<close>\<close>
  mp_disposition_filename :: "string option"  \<comment> \<open>\<open>content_disposition[1].get('filename')\<close>\<close>
  mp_body :: "exn + string option"       \<comment> \<open>\<open>body\<close>\<close>
  mp_content_id :: "string option"       \<comment> \<open>\<open>headers.get('Content-Id')\<close>\<close>

record parsed =
  p_mime_version :: "exn + string option"
  p_clean_subject :: "exn + string option"
  p_from :: "exn + address list"         \<comment> \<open>\<open>parse_mimepart_address_header(parsed, 'From')\<close>\<close>
  p_sender :: "exn + address list"
  p_reply_to :: "exn + address list"
  p_to :: "exn + address list"
  p_cc :: "exn + address list"
  p_bcc :: "exn + address list"
  p_in_reply_to :: "exn + string option"
  p_message_id :: "exn + string option"
  p_internaldate :: "exn + timestamp option"  \<comment> \<open>\<open>get_internaldate(Date, Received)\<close>\<close>
  p_inbox_uid :: "exn + string option"
  p_references :: "exn + string list"    \<comment> \<open>\<open>parse_references(References, In-Reply-To)\<close>\<close>
  p_headers_json :: "exn + string"       \<comment> \<open>\<open>json.dumps(parsed.headers.items())\<close>\<close>
  p_walk :: "mimepart list"
    \<comment> \<open>what \<open>parsed.walk(with_self=parsed.content_type.is_singlepart())\<close> yields\<close>

datatype field_value = FNone | FAddresses "address list" | FReferences "string list"

record env =
  isspace :: "char \<Rightarrow> bool"
  from_string :: "string \<Rightarrow> exn + parsed"          \<comment> \<open>\<open>mime.from_string\<close>\<close>
  sha256_hexdigest :: "string \<Rightarrow> string"
  utf8_encode :: "string \<Rightarrow> exn + string"         \<comment> \<open>\<open>.encode('utf-8', 'strict')\<close>\<close>
  utf8_decode :: "string \<Rightarrow> exn + string"         \<comment> \<open>\<open>.decode('utf-8')\<close>\<close>
  strip_tags :: "string \<Rightarrow> exn + string"
  plaintext2html :: "string \<Rightarrow> exn + string"      \<comment> \<open>\<open>plaintext2html(text, False)\<close>\<close>
  json_field_too_long :: "field_value \<Rightarrow> exn + bool"
  get_errfilename :: "nat \<Rightarrow> string \<Rightarrow> nat \<Rightarrow> exn + string"
    \<comment> \<open>\<open>_get_errfilename\<close>: the path of the error file, after \<open>mkdirp\<close> of its directory\<close>
  write_file :: "string \<Rightarrow> string \<Rightarrow> exn option"
    \<comment> \<open>\<open>with open(errfile, 'w') as fh: fh.write(msg_string)\<close>: what it raises\<close>
  utcnow :: timestamp
  feature_flags :: "string list"                  \<comment> \<open>\<open>config.get('FEATURE_FLAGS')\<close>\<close>
  import_attached_events :: "nat \<Rightarrow> string option \<Rightarrow> exn option"

section \<open>Snippets\<close>

definition SNIPPET_LENGTH :: nat where
  "SNIPPET_LENGTH = 191"

definition calculate_plaintext_snippet :: "(char \<Rightarrow> bool) \<Rightarrow> string \<Rightarrow> string" where
  \<comment> \<open>\<open>' '.join(text.split())[:self.SNIPPET_LENGTH]\<close>\<close>
  "calculate_plaintext_snippet ws text = take SNIPPET_LENGTH (py_join '' '' (py_split ws text))"

definition calculate_html_snippet :: "env \<Rightarrow> string \<Rightarrow> exn + string" where
  "calculate_html_snippet env text =
     (case strip_tags env text of
        Inl e \<Rightarrow> Inl e
      | Inr t \<Rightarrow> Inr (calculate_plaintext_snippet (isspace env) t))"

text \<open>
  The specification's wording of the snippet, for comparison: every run of whitespace
  in the text becomes a single space.
\<close>

function collapse_whitespace_runs :: "(char \<Rightarrow> bool) \<Rightarrow> string \<Rightarrow> string" where
  "collapse_whitespace_runs ws [] = []"
| "collapse_whitespace_runs ws (c # cs) =
     (if ws c then CHR '' '' # collapse_whitespace_runs ws (dropWhile ws cs)
      else c # collapse_whitespace_runs ws cs)"
  by pat_completeness auto
termination
  by (relation "measure (\<lambda>(ws, s). length s)") (auto simp: length_dropWhile_le less_Suc_eq_le)

fun has_whitespace_run :: "(char \<Rightarrow> bool) \<Rightarrow> string \<Rightarrow> bool" where
  \<comment> \<open>two whitespace characters next to each other\<close>
  "has_whitespace_run ws (a # b # cs) = ((ws a \<and> ws b) \<or> has_whitespace_run ws (b # cs))"
| "has_whitespace_run ws [a] = False"
| "has_whitespace_run ws [] = False"

section \<open>Error recovery\<close>

text \<open>
  \<^verbatim>\<open>
  def _mark_error(self):
      self.decode_error = True
      # fill in required attributes with filler data if could not parse them
      self.size = 0
      if self.received_date is None:
          self.received_date = datetime.datetime.utcnow()
      if self.sanitized_body is None:
          self.sanitized_body = ''
      if self.snippet is None:
          self.snippet = ''
  \<close>
\<close>

definition mark_error :: "timestamp \<Rightarrow> message \<Rightarrow> message" where
  "mark_error now m =
     m\<lparr> decode_error := True,
        size_attr := Some 0,
        received_date := (case received_date m of None \<Rightarrow> Some now | Some d \<Rightarrow> Some d),
        sanitized_body := (case sanitized_body m of None \<Rightarrow> Some [] | Some b \<Rightarrow> Some b),
        snippet := (case snippet m of None \<Rightarrow> Some [] | Some s \<Rightarrow> Some s) \<rparr>"

section \<open>Parsing one MIME part\<close>

definition Part :: "block \<Rightarrow> part" where
  \<comment> \<open>\<open>Part(block=block, message=...)\<close> before any other attribute is assigned\<close>
  "Part b = \<lparr> block = b, walk_index = None, content_disposition = None, content_id = None \<rparr>"

definition attach :: "part \<Rightarrow> message \<Rightarrow> message" where
  \<comment> \<open>the back-reference of \<open>Part(..., message=msg)\<close>: the part joins \<open>msg.parts\<close>\<close>
  "attach p m = m\<lparr> parts := parts m @ [p] \<rparr>"

definition data_to_write :: "env \<Rightarrow> mimepart \<Rightarrow> string \<Rightarrow> exn + string" where
  \<comment> \<open>the payload \<open>_parse_mimepart\<close> stores, for a block of content type \<open>ct\<close>\<close>
  "data_to_write env mimepart ct =
     (case mp_body mimepart of
        Inl e \<Rightarrow> Inl e
      | Inr None \<Rightarrow> Inr []
      | Inr (Some b) \<Rightarrow>
          if startswith ct ''text''
          then (case utf8_encode env b of
                  Inl e \<Rightarrow> Inl e
                | Inr d \<Rightarrow> Inr (replace_cr (replace_crlf d)))
          else Inr b)"

text \<open>
  \<open>_parse_mimepart\<close> creates the \<open>Part\<close>, which joins \<open>self.parts\<close> at once, and then
  assigns its attributes; nothing reads the part in between, so the model attaches the part
  with the attributes it has when the method returns or raises. An exception at
  \<open>mimepart.body\<close> or at \<open>.encode\<close> leaves the part attached, without \<open>content_id\<close>
  and \<open>data\<close>.
\<close>

definition parse_mimepart ::
    "env \<Rightarrow> mimepart \<Rightarrow> nat \<Rightarrow> nat \<Rightarrow> message \<Rightarrow> exn option \<times> message" where
  "parse_mimepart env mimepart index ns m =
     (let disposition = mp_disposition mimepart in
      if disposition \<noteq> None \<and> disposition \<noteq> Some ''inline''
           \<and> disposition \<noteq> Some ''attachment''
      then (None, mark_error (utcnow env) m)
      else
        let ct = mp_content_type_value mimepart;
            b = \<lparr> block_namespace_id = Some ns, content_type = Some ct,
                  filename = trim_filename (mp_name mimepart), data = None \<rparr>;
            created = (Part b)\<lparr> walk_index := Some index \<rparr>;
            new_part =
              (if disposition \<noteq> None
               then created\<lparr> content_disposition := disposition,
                      block := (if disposition = Some ''attachment''
                                then b\<lparr> filename :=
                                         trim_filename (mp_disposition_filename mimepart) \<rparr>
                                else b) \<rparr>
               else created)
        in case data_to_write env mimepart ct of
             Inl e \<Rightarrow> (Some e, attach new_part m)
           | Inr d \<Rightarrow>
               (None, attach (new_part\<lparr> content_id := mp_content_id mimepart,
                                block := (block new_part)\<lparr> data := Some d \<rparr> \<rparr>) m))"

section \<open>Body selection and sanitization\<close>

text \<open>
  \<^verbatim>\<open>
  for part in self.parts:
      if part.block.content_type == 'text/html':
          html_data = part.block.data.decode('utf-8').strip()
          break
  \<close>
  and the same loop for \<open>text/plain\<close>. A block without data makes \<open>.decode\<close> an
  \<open>AttributeError\<close>.
\<close>

definition decoded_text :: "env \<Rightarrow> part \<Rightarrow> exn + string" where
  \<comment> \<open>\<open>part.block.data.decode('utf-8').strip()\<close>\<close>
  "decoded_text env p =
     (case data (block p) of
        None \<Rightarrow> Inl AttributeError
      | Some d \<Rightarrow>
          (case utf8_decode env d of
             Inl e \<Rightarrow> Inl e
           | Inr u \<Rightarrow> Inr (py_strip (isspace env) u)))"

fun first_of_type :: "env \<Rightarrow> string \<Rightarrow> part list \<Rightarrow> exn + string option" where
  "first_of_type env ct [] = Inr None"
| "first_of_type env ct (p # ps) =
     (if content_type (block p) = Some ct
      then (case decoded_text env p of Inl e \<Rightarrow> Inl e | Inr t \<Rightarrow> Inr (Some t))
      else first_of_type env ct ps)"

definition body :: "env \<Rightarrow> message \<Rightarrow> exn + (string option \<times> string option)" where
  \<comment> \<open>the property \<open>body\<close>: \<open>(plain_data, html_data)\<close>\<close>
  "body env m =
     (if parts m = [] then Inl AssertionError
      else case first_of_type env ''text/html'' (parts m) of
             Inl e \<Rightarrow> Inl e
           | Inr html_data \<Rightarrow>
               (case first_of_type env ''text/plain'' (parts m) of
                  Inl e \<Rightarrow> Inl e
                | Inr plain_data \<Rightarrow> Inr (plain_data, html_data)))"

definition text_of :: "string option \<Rightarrow> string" where
  "text_of s = (case s of None \<Rightarrow> [] | Some t \<Rightarrow> t)"

definition calculate_sanitized_body :: "env \<Rightarrow> message \<Rightarrow> exn option \<times> message" where
  "calculate_sanitized_body env m =
     (case body env m of
        Inl e \<Rightarrow> (Some e, m)
      | Inr (plain_part, html_part) \<Rightarrow>
          if truthy html_part then
            if CR \<in> set (text_of html_part) then (Some AssertionError, m)
            else (case calculate_html_snippet env (text_of html_part) of
                    Inl e \<Rightarrow> (Some e, m)
                  | Inr s \<Rightarrow> (None, m\<lparr> snippet := Some s, sanitized_body := html_part \<rparr>))
          else if truthy plain_part then
            (let m' = m\<lparr> snippet :=
                          Some (calculate_plaintext_snippet (isspace env) (text_of plain_part)) \<rparr>
             in case plaintext2html env (text_of plain_part) of
                  Inl e \<Rightarrow> (Some e, m')
                | Inr h \<Rightarrow> (None, m'\<lparr> sanitized_body := Some h \<rparr>))
          else (None, m\<lparr> sanitized_body := Some [], snippet := Some [] \<rparr>))"

section \<open>The ingestion pipeline\<close>

type_synonym step = "message \<Rightarrow> exn option \<times> message"

definition assign :: "exn + 'a \<Rightarrow> ('a \<Rightarrow> message \<Rightarrow> message) \<Rightarrow> step" where
  \<comment> \<open>one statement \<open>msg.attr = expression\<close>: the expression's exception leaves \<open>msg\<close> as it is\<close>
  "assign r upd m = (case r of Inl e \<Rightarrow> (Some e, m) | Inr v \<Rightarrow> (None, upd v m))"

fun run_steps :: "step list \<Rightarrow> step" where
  \<comment> \<open>statements in sequence, up to the first exception\<close>
  "run_steps [] m = (None, m)"
| "run_steps (s # ss) m =
     (case s m of (Some e, m') \<Rightarrow> (Some e, m') | (None, m') \<Rightarrow> run_steps ss m')"

definition validate_length :: "string option \<Rightarrow> string option" where
  \<comment> \<open>the validator of \<open>subject\<close>\<close>
  "validate_length v = (case v of None \<Rightarrow> None | Some s \<Rightarrow> Some (take 255 s))"

definition ical_handler :: "exn \<Rightarrow> exn option" where
  \<comment> \<open>the two \<open>except\<close> clauses around \<open>import_attached_events\<close>: what they let through\<close>
  "ical_handler e =
     (if e = MalformedEventError \<or> e = AssertionError \<or> e = TypeError \<or> e = RuntimeError
          \<or> e = AttributeError \<or> e = ValueError
      then None else Some e)"

definition ical_import :: "env \<Rightarrow> account \<Rightarrow> mimepart \<Rightarrow> exn option" where
  "ical_import env acct mimepart =
     (if ''ical_autoimport'' \<in> set (feature_flags env)
          \<and> mp_format_type mimepart = ''text'' \<and> mp_subtype mimepart = ''calendar''
      then (case mp_body mimepart of
              Inl e \<Rightarrow> ical_handler e
            | Inr b \<Rightarrow>
                (case import_attached_events env (account_id acct) b of
                   None \<Rightarrow> None
                 | Some e \<Rightarrow> ical_handler e))
      else None)"

text \<open>
  \<^verbatim>\<open>
  for mimepart in parsed.walk(with_self=parsed.content_type.is_singlepart()):
      i += 1
      if mimepart.content_type.is_multipart():
          log.warning('multipart sub-part found', ...)
          continue
      msg._parse_mimepart(mimepart, mid, i, account.namespace.id)
      if 'ical_autoimport' in config.get('FEATURE_FLAGS') and ...:
          ...
  \<close>
  \<open>i\<close> is the index of the part walked last.
\<close>

fun walk_loop ::
    "env \<Rightarrow> account \<Rightarrow> nat \<Rightarrow> nat \<Rightarrow> mimepart list \<Rightarrow> message \<Rightarrow> exn option \<times> message" where
  "walk_loop env acct ns i [] m = (None, m)"
| "walk_loop env acct ns i (mimepart # rest) m =
     (if mp_is_multipart mimepart then walk_loop env acct ns (i + 1) rest m
      else case parse_mimepart env mimepart (i + 1) ns m of
             (Some e, m') \<Rightarrow> (Some e, m')
           | (None, m') \<Rightarrow>
               (case ical_import env acct mimepart of
                  Some e \<Rightarrow> (Some e, m')
                | None \<Rightarrow> walk_loop env acct ns (i + 1) rest m'))"

definition headers_part :: "nat \<Rightarrow> string \<Rightarrow> part" where
  \<comment> \<open>the part of index 0 that stores all message headers\<close>
  "headers_part ns headers =
     (Part \<lparr> block_namespace_id = Some ns, content_type = None, filename = None,
             data = Some headers \<rparr>)\<lparr> walk_index := Some 0 \<rparr>"

definition field_steps :: "env \<Rightarrow> timestamp option \<Rightarrow> string \<Rightarrow> parsed \<Rightarrow> step list" where
  \<comment> \<open>the assignments from \<open>mime_version = ...\<close> to \<open>msg.size = len(body_string)\<close>\<close>
  "field_steps env received body_string parsed =
     [ assign (p_mime_version parsed) (\<lambda>v m. m),
       assign (Inr (sha256_hexdigest env body_string)) (\<lambda>v m. m\<lparr> data_sha256 := Some v \<rparr>),
       assign (p_clean_subject parsed) (\<lambda>v m. m\<lparr> subject := validate_length v \<rparr>),
       assign (p_from parsed) (\<lambda>v m. m\<lparr> from_addr := Some v \<rparr>),
       assign (p_sender parsed) (\<lambda>v m. m\<lparr> sender_addr := Some v \<rparr>),
       assign (p_reply_to parsed) (\<lambda>v m. m\<lparr> reply_to := Some v \<rparr>),
       assign (p_to parsed) (\<lambda>v m. m\<lparr> to_addr := Some v \<rparr>),
       assign (p_cc parsed) (\<lambda>v m. m\<lparr> cc_addr := Some v \<rparr>),
       assign (p_bcc parsed) (\<lambda>v m. m\<lparr> bcc_addr := Some v \<rparr>),
       assign (p_in_reply_to parsed) (\<lambda>v m. m\<lparr> in_reply_to := v \<rparr>),
       assign (p_message_id parsed) (\<lambda>v m. m\<lparr> message_id_header := v \<rparr>),
       assign (case received of Some d \<Rightarrow> Inr (Some d) | None \<Rightarrow> p_internaldate parsed)
              (\<lambda>v m. m\<lparr> received_date := v \<rparr>),
       assign (p_inbox_uid parsed) (\<lambda>v m. m\<lparr> inbox_uid := v \<rparr>),
       assign (p_references parsed) (\<lambda>v m. m\<lparr> references := Some v \<rparr>),
       assign (Inr (length body_string)) (\<lambda>v m. m\<lparr> size_attr := Some v \<rparr>) ]"

definition try_block ::
    "env \<Rightarrow> account \<Rightarrow> nat \<Rightarrow> timestamp option \<Rightarrow> string \<Rightarrow> message \<Rightarrow> exn option \<times> message" where
  \<comment> \<open>the body of the \<open>try\<close> statement; \<open>ns\<close> is \<open>account.namespace.id\<close>\<close>
  "try_block env acct ns received body_string msg =
     (let msg = msg\<lparr> full_body := Some \<lparr> block_namespace_id = Some ns,
                         content_type = Some ''text/plain'', filename = None,
                         data = Some body_string \<rparr>,
                      namespace_id := Some ns \<rparr>
      in case from_string env body_string of
           Inl e \<Rightarrow> (Some e, msg)
         | Inr parsed \<Rightarrow>
             run_steps
               (field_steps env received body_string parsed @
                [ assign (p_headers_json parsed) (\<lambda>v m. attach (headers_part ns v) m),
                  walk_loop env acct ns 0 (p_walk parsed),
                  calculate_sanitized_body env ])
               msg)"

definition caught :: "exn \<Rightarrow> bool" where
  \<comment> \<open>\<open>except (mime.DecodingError, AttributeError, RuntimeError, TypeError, ValueError)\<close>\<close>
  "caught e = (e = DecodingError \<or> e = AttributeError \<or> e = RuntimeError \<or> e = TypeError
                \<or> e = ValueError)"

datatype field = To_addr | Cc_addr | Bcc_addr | References

fun getattr :: "message \<Rightarrow> field \<Rightarrow> field_value" where
  "getattr m To_addr = (case to_addr m of None \<Rightarrow> FNone | Some v \<Rightarrow> FAddresses v)"
| "getattr m Cc_addr = (case cc_addr m of None \<Rightarrow> FNone | Some v \<Rightarrow> FAddresses v)"
| "getattr m Bcc_addr = (case bcc_addr m of None \<Rightarrow> FNone | Some v \<Rightarrow> FAddresses v)"
| "getattr m References = (case references m of None \<Rightarrow> FNone | Some v \<Rightarrow> FReferences v)"

fun setattr_empty :: "message \<Rightarrow> field \<Rightarrow> message" where
  \<comment> \<open>\<open>setattr(msg, field, [])\<close>\<close>
  "setattr_empty m To_addr = m\<lparr> to_addr := Some [] \<rparr>"
| "setattr_empty m Cc_addr = m\<lparr> cc_addr := Some [] \<rparr>"
| "setattr_empty m Bcc_addr = m\<lparr> bcc_addr := Some [] \<rparr>"
| "setattr_empty m References = m\<lparr> references := Some [] \<rparr>"

definition log_decode_error :: "env \<Rightarrow> nat \<Rightarrow> string \<Rightarrow> nat \<Rightarrow> string \<Rightarrow> exn option" where
  \<comment> \<open>\<open>_log_decode_error\<close>: the raw message is written to the error file\<close>
  "log_decode_error env acct_id folder_name uid msg_string =
     (case get_errfilename env acct_id folder_name uid of
        Inl e \<Rightarrow> Some e
      | Inr errfile \<Rightarrow> write_file env errfile msg_string)"

definition report_error :: "env \<Rightarrow> account \<Rightarrow> string \<Rightarrow> nat \<Rightarrow> string \<Rightarrow> exn option" where
  \<comment> \<open>the statements of a handler before \<open>msg._mark_error()\<close>: \<open>_log_decode_error(...)\<close>
      and \<open>err_filename = _get_errfilename(...)\<close>; what they raise\<close>
  "report_error env acct folder_name mid body_string =
     (case log_decode_error env (account_id acct) folder_name mid body_string of
        Some e \<Rightarrow> Some e
      | None \<Rightarrow>
          (case get_errfilename env (account_id acct) folder_name mid of
             Inl e \<Rightarrow> Some e
           | Inr err_filename \<Rightarrow> None))"

fun check_fields ::
    "env \<Rightarrow> account \<Rightarrow> string \<Rightarrow> nat \<Rightarrow> string \<Rightarrow> field list \<Rightarrow> message \<Rightarrow> exn + message" where
  \<comment> \<open>the loop over the recipient fields and the references after the \<open>try\<close> statement\<close>
  "check_fields env acct folder_name mid body_string [] m = Inr m"
| "check_fields env acct folder_name mid body_string (f # fs) m =
     (case json_field_too_long env (getattr m f) of
        Inl e \<Rightarrow> Inl e
      | Inr too_long \<Rightarrow>
          if too_long
          then (case report_error env acct folder_name mid body_string of
                  Some e \<Rightarrow> Inl e
                | None \<Rightarrow>
                    check_fields env acct folder_name mid body_string fs
                      (mark_error (utcnow env) (setattr_empty m f)))
          else check_fields env acct folder_name mid body_string fs m)"

definition try_except ::
    "env \<Rightarrow> account \<Rightarrow> string \<Rightarrow> nat \<Rightarrow> nat \<Rightarrow> timestamp option \<Rightarrow> string \<Rightarrow> exn + message" where
  \<comment> \<open>the \<open>try\<close> statement with its handler, run on a new \<open>Message()\<close>\<close>
  "try_except env acct folder_name mid ns received body_string =
     (case try_block env acct ns received body_string Message of
        (None, msg) \<Rightarrow> Inr msg
      | (Some e, msg) \<Rightarrow>
          if caught e
          then (case report_error env acct folder_name mid body_string of
                  Some e' \<Rightarrow> Inl e'
                | None \<Rightarrow> Inr (mark_error (utcnow env) msg))
          else Inl e)"

text \<open>
  \<open>create_from_synced\<close>. The calls of the logger do not touch the message and are left out;
  \<open>mid\<close> and \<open>folder_name\<close> only go there and to the error file.
\<close>

definition create_from_synced ::
    "env \<Rightarrow> account option \<Rightarrow> nat option \<Rightarrow> string option \<Rightarrow> timestamp option
       \<Rightarrow> py_string option \<Rightarrow> exn + message" where
  "create_from_synced env account mid folder_name received body_string =
     (case (account, mid, folder_name, body_string) of
        (Some acct, Some uid, Some folder, Some bs) \<Rightarrow>
          (case account_namespace acct of
             None \<Rightarrow> Inl AssertionError
           | Some ns \<Rightarrow>
               (case bs of
                  Unicode _ \<Rightarrow> Inl AssertionError
                | Str raw \<Rightarrow>
                    (case try_except env acct folder uid ns received raw of
                       Inl e \<Rightarrow> Inl e
                     | Inr msg \<Rightarrow>
                         check_fields env acct folder uid raw
                           [To_addr, Cc_addr, Bcc_addr, References] msg)))
      | _ \<Rightarrow> Inl ValueError)"

section \<open>Participants\<close>









section \<open>Notions for stating the properties\<close>

definition accepted :: "mimepart \<Rightarrow> bool" where
  \<comment> \<open>the dispositions \<open>_parse_mimepart\<close> goes on with\<close>
  "accepted mimepart =
     (mp_disposition mimepart = None \<or> mp_disposition mimepart = Some ''inline''
        \<or> mp_disposition mimepart = Some ''attachment'')"

definition first_part :: "string \<Rightarrow> message \<Rightarrow> part option" where
  \<comment> \<open>the first part of the given content type, in the order of \<open>parts\<close>\<close>
  "first_part ct m = find (\<lambda>p. content_type (block p) = Some ct) (parts m)"

definition before :: "part \<Rightarrow> part \<Rightarrow> bool" where
  \<comment> \<open>the first part has the smaller walk index\<close>
  "before p q =
     (case walk_index p of
        None \<Rightarrow> False
      | Some i \<Rightarrow> (case walk_index q of None \<Rightarrow> False | Some j \<Rightarrow> i < j))"

definition walk_ordered :: "message \<Rightarrow> bool" where
  \<comment> \<open>\<open>parts\<close> lists the parts by increasing walk index\<close>
  "walk_ordered m = sorted_wrt before (parts m)"

definition first_in_walk :: "string \<Rightarrow> message \<Rightarrow> part option \<Rightarrow> bool" where
  \<comment> \<open>\<open>sel\<close> is the part of the given content type with the least walk index, or
      \<open>None\<close> when the message has no part of that content type\<close>
  "first_in_walk ct m sel =
     (case sel of
        None \<Rightarrow> \<not> (\<exists>q\<in>set (parts m). content_type (block q) = Some ct)
      | Some p \<Rightarrow>
          p \<in> set (parts m) \<and> content_type (block p) = Some ct
          \<and> (\<forall>q\<in>set (parts m). content_type (block q) = Some ct \<longrightarrow> q = p \<or> before p q))"

definition decoded_of :: "env \<Rightarrow> part option \<Rightarrow> exn + string option" where
  \<comment> \<open>the decoded, stripped text of a selected part; \<open>None\<close> when no part is selected\<close>
  "decoded_of env sel =
     (case sel of
        None \<Rightarrow> Inr None
      | Some p \<Rightarrow> (case decoded_text env p of Inl e \<Rightarrow> Inl e | Inr t \<Rightarrow> Inr (Some t)))"

definition selected :: "env \<Rightarrow> string \<Rightarrow> message \<Rightarrow> exn + string option" where
  \<comment> \<open>the decoded, stripped text of that part, \<open>None\<close> when there is no such part\<close>
  "selected env ct m =
     (case first_part ct m of
        None \<Rightarrow> Inr None
      | Some p \<Rightarrow> (case decoded_text env p of Inl e \<Rightarrow> Inl e | Inr t \<Rightarrow> Inr (Some t)))"

fun walk_indices :: "nat \<Rightarrow> mimepart list \<Rightarrow> nat list" where
  \<comment> \<open>the positions, counted from \<open>i + 1\<close>, of the parts of a walk that are not multipart\<close>
  "walk_indices i [] = []"
| "walk_indices i (mimepart # rest) =
     (if mp_is_multipart mimepart then walk_indices (i + 1) rest
      else (i + 1) # walk_indices (i + 1) rest)"

definition normalized :: "message \<Rightarrow> bool" where
  \<comment> \<open>no stored \<open>text/html\<close> payload holds a carriage return\<close>
  "normalized m =
     (\<forall>p\<in>set (parts m). content_type (block p) = Some ''text/html'' \<longrightarrow>
        (\<forall>d. data (block p) = Some d \<longrightarrow> CR \<notin> set d))"

definition start :: "nat \<Rightarrow> string \<Rightarrow> message" where
  \<comment> \<open>the message when the tokenizer is called\<close>
  "start ns raw =
     Message\<lparr> full_body := Some \<lparr> block_namespace_id = Some ns,
                  content_type = Some ''text/plain'', filename = None, data = Some raw \<rparr>,
              namespace_id := Some ns \<rparr>"

definition handled :: "exn + 'a \<Rightarrow> bool" where
  \<comment> \<open>a value, or an exception of a class the handler of \<open>create_from_synced\<close> names\<close>
  "handled r = (case r of Inl e \<Rightarrow> caught e | Inr v \<Rightarrow> True)"

definition parsed_handled :: "parsed \<Rightarrow> bool" where
  "parsed_handled p =
     (handled (p_mime_version p) \<and> handled (p_clean_subject p) \<and> handled (p_from p)
      \<and> handled (p_sender p) \<and> handled (p_reply_to p) \<and> handled (p_to p) \<and> handled (p_cc p)
      \<and> handled (p_bcc p) \<and> handled (p_in_reply_to p) \<and> handled (p_message_id p)
      \<and> handled (p_internaldate p) \<and> handled (p_inbox_uid p) \<and> handled (p_references p)
      \<and> handled (p_headers_json p))"

definition part_handled :: "env \<Rightarrow> account \<Rightarrow> mimepart \<Rightarrow> bool" where
  \<comment> \<open>for a part that is not multipart: reading its body and importing its calendar fail
      with handled classes only\<close>
  "part_handled env acct mimepart =
     (mp_is_multipart mimepart
      \<or> (handled (mp_body mimepart)
         \<and> (case ical_import env acct mimepart of None \<Rightarrow> True | Some e \<Rightarrow> caught e)))"

definition codec_handled :: "env \<Rightarrow> bool" where
  \<comment> \<open>the string functions fail with handled classes only, and decoding invents no
      carriage return\<close>
  "codec_handled env =
     ((\<forall>s. handled (utf8_encode env s)) \<and> (\<forall>s. handled (utf8_decode env s))
      \<and> (\<forall>s. handled (strip_tags env s)) \<and> (\<forall>s. handled (plaintext2html env s))
      \<and> (\<forall>s u. utf8_decode env s = Inr u \<longrightarrow> CR \<in> set u \<longrightarrow> CR \<in> set s))"

definition failures_handled :: "env \<Rightarrow> account \<Rightarrow> string \<Rightarrow> bool" where
  \<comment> \<open>whatever fails while the raw message \<open>raw\<close> is ingested fails with a handled class\<close>
  "failures_handled env acct raw =
     (codec_handled env
      \<and> (case from_string env raw of
            Inl e \<Rightarrow> caught e
          | Inr p \<Rightarrow> parsed_handled p \<and> list_all (part_handled env acct) (p_walk p)))"

section \<open>Concrete inputs\<close>

text \<open>Stand-ins for the tokenizer and the configuration, to run the model on examples.\<close>

fun drop_tags :: "bool \<Rightarrow> string \<Rightarrow> string" where
  "drop_tags in_tag [] = []"
| "drop_tags in_tag (c # cs) =
     (if c = CHR ''<'' then drop_tags True cs
      else if c = CHR ''>'' then drop_tags False cs
      else if in_tag then drop_tags in_tag cs
      else c # drop_tags in_tag cs)"

definition too_many :: "field_value \<Rightarrow> bool" where
  "too_many v = (case v of FNone \<Rightarrow> False | FAddresses l \<Rightarrow> length l > 2
                 | FReferences l \<Rightarrow> length l > 2)"

definition leaf :: "string \<Rightarrow> string \<Rightarrow> string \<Rightarrow> mimepart" where
  "leaf main sub text =
     \<lparr> mp_content_type_value = main @ ''/'' @ sub, mp_is_multipart = False,
       mp_format_type = main, mp_subtype = sub, mp_name = None, mp_disposition = None,
       mp_disposition_filename = None, mp_body = Inr (Some text), mp_content_id = None \<rparr>"

definition container :: "string \<Rightarrow> mimepart" where
  "container sub =
     \<lparr> mp_content_type_value = ''multipart/'' @ sub, mp_is_multipart = True,
       mp_format_type = ''multipart'', mp_subtype = sub, mp_name = None,
       mp_disposition = None, mp_disposition_filename = None, mp_body = Inr None,
       mp_content_id = None \<rparr>"

definition example_parsed :: "mimepart list \<Rightarrow> parsed" where
  "example_parsed walk =
     \<lparr> p_mime_version = Inr (Some ''1.0''), p_clean_subject = Inr (Some ''Lunch''),
       p_from = Inr [(''Alice'', ''a@x.org'')], p_sender = Inr [], p_reply_to = Inr [],
       p_to = Inr [([], ''b@x.org'')], p_cc = Inr [], p_bcc = Inr [],
       p_in_reply_to = Inr None, p_message_id = Inr (Some ''<1@x.org>''),
       p_internaldate = Inr (Some 1000), p_inbox_uid = Inr None, p_references = Inr [],
       p_headers_json = Inr ''[]'', p_walk = walk \<rparr>"

definition example_env :: "(string \<Rightarrow> exn + parsed) \<Rightarrow> env" where
  "example_env tokenizer =
     \<lparr> isspace = unicode_space, from_string = tokenizer, sha256_hexdigest = (\<lambda>raw. ''00''),
       utf8_encode = Inr, utf8_decode = Inr, strip_tags = (\<lambda>h. Inr (drop_tags False h)),
       plaintext2html = (\<lambda>t. Inr (''<p>'' @ t @ ''</p>'')),
       json_field_too_long = (\<lambda>v. Inr (too_many v)),
       get_errfilename = (\<lambda>a folder uid. Inr (''errors/'' @ folder)),
       write_file = (\<lambda>errfile s. None),
       utcnow = 2000, feature_flags = [], import_attached_events = (\<lambda>a b. None) \<rparr>"

definition example_account :: account where
  "example_account = \<lparr> account_id = 1, account_namespace = Some 7 \<rparr>"

definition stored_part :: "nat \<Rightarrow> string \<Rightarrow> string \<Rightarrow> part" where
  \<comment> \<open>a part as \<open>_parse_mimepart\<close> leaves it, with content type and data\<close>
  "stored_part index ct d =
     \<lparr> block = \<lparr> block_namespace_id = Some 7, content_type = Some ct, filename = None,
                 data = Some d \<rparr>,
       walk_index = Some index, content_disposition = None, content_id = None \<rparr>"

definition example_message :: "string \<Rightarrow> string \<Rightarrow> message" where
  \<comment> \<open>a message with the headers part, a \<open>text/html\<close> part and a \<open>text/plain\<close> part\<close>
  "example_message html plain =
     Message\<lparr> parts := [headers_part 7 ''[]'', stored_part 1 ''text/html'' html,
                        stored_part 2 ''text/plain'' plain] \<rparr>"

definition nested_walk :: "mimepart list" where
  \<comment> \<open>the walk of a \<open>multipart/mixed\<close> message that holds one \<open>multipart/alternative\<close>
      with a plain and an HTML leaf\<close>
  "nested_walk = [container ''alternative'', leaf ''text'' ''plain'' ''hi'',
                  leaf ''text'' ''html'' ''<p>hi</p>'']"

definition many_recipients :: parsed where
  \<comment> \<open>a single-part message sent to three addresses\<close>
  "many_recipients =
     (example_parsed [leaf ''text'' ''plain'' ''hi''])
       \<lparr> p_to := Inr [([], ''b@x.org''), ([], ''c@x.org''), ([], ''d@x.org'')] \<rparr>"

definition two_html_message :: message where
  \<comment> \<open>a message whose second \<open>text/html\<close> part is blank\<close>
  "two_html_message =
     Message\<lparr> parts := [headers_part 7 ''[]'', stored_part 1 ''text/html'' ''<p>x</p>'',
                        stored_part 2 ''text/html'' '' '', stored_part 3 ''text/plain'' ''hi''] \<rparr>"

definition attachment :: "string option \<Rightarrow> string option \<Rightarrow> mimepart" where
  \<comment> \<open>a PDF attachment with the given \<open>name\<close> and \<open>filename\<close> parameters\<close>
  "attachment name fname =
     (leaf ''application'' ''pdf'' ''%PDF'')
       \<lparr> mp_name := name, mp_disposition := Some ''attachment'',
         mp_disposition_filename := fname \<rparr>"

definition form_data :: mimepart where
  \<comment> \<open>a leaf whose disposition is neither \<open>inline\<close> nor \<open>attachment\<close>\<close>
  "form_data = (leaf ''text'' ''plain'' ''hi'')\<lparr> mp_disposition := Some ''form-data'' \<rparr>"

definition unnamed_account :: account where
  \<comment> \<open>an account that has no namespace yet\<close>
  "unnamed_account = \<lparr> account_id = 1, account_namespace = None \<rparr>"

definition undecodable :: mimepart where
  \<comment> \<open>a leaf whose body the tokenizer cannot decode\<close>
  "undecodable = (leaf ''text'' ''plain'' [])\<lparr> mp_body := Inl DecodingError \<rparr>"

section \<open>Properties of filename truncation\<close>

lemma trim_filename_long:
  "length f > 64 \<Longrightarrow> trim_filename (Some f) = Some (take 56 f @ drop (length f - 8) f)"
  by (auto simp: trim_filename_def trim_filename_len_def py_prefix_def py_suffix_def)

lemma trim_filename_short:
  "length f \<le> 64 \<Longrightarrow> trim_filename (Some f) = Some f"
  by (auto simp: trim_filename_def trim_filename_len_def)

text \<open>
  Claim C7. A filename of more than 64 characters is truncated to exactly 64 characters,
  and the last 8 characters of the result are the last 8 characters of the original.
\<close>

theorem trim_filename_64_keeps_last_8:
  assumes "length f > 64"
  shows "\<exists>r. trim_filename (Some f) = Some r \<and> length r = 64
             \<and> py_suffix 8 r = py_suffix 8 f"
proof -
  let ?r = "take 56 f @ drop (length f - 8) f"
  have r: "trim_filename (Some f) = Some ?r"
    using assms by (rule trim_filename_long)
  have len: "length ?r = 64"
    using assms by simp
  have "drop (length ?r - 8) ?r = drop (length f - 8) f"
    using assms by (simp add: min_def)
  then have "py_suffix 8 ?r = py_suffix 8 f"
    by (simp only: py_suffix_def)
  with r len show ?thesis by blast
qed

theorem trim_filename_64_keeps_last_8_witness:
  "length (replicate 60 CHR ''a'' @ ''-name.pdf'') > 64
   \<and> trim_filename (Some (replicate 60 CHR ''a'' @ ''-name.pdf''))
       = Some (replicate 56 CHR ''a'' @ ''name.pdf'')
   \<and> length (replicate 56 CHR ''a'' @ ''name.pdf'') = 64
   \<and> py_suffix 8 (replicate 56 CHR ''a'' @ ''name.pdf'')
       = py_suffix 8 (replicate 60 CHR ''a'' @ ''-name.pdf'')"
proof -
  have h: "length (replicate 60 CHR ''a'' @ ''-name.pdf'') > 64" by simp
  have e: "trim_filename (Some (replicate 60 CHR ''a'' @ ''-name.pdf''))
             = Some (replicate 56 CHR ''a'' @ ''name.pdf'')"
    by (simp add: trim_filename_long)
  from trim_filename_64_keeps_last_8 [OF h] e h show ?thesis by auto
qed


section \<open>Properties of the snippet\<close>

lemma dropWhile_all: "\<forall>c\<in>set s. P c \<Longrightarrow> dropWhile P s = []"
  by simp

lemma py_rstrip_Nil [simp]: "py_rstrip ws [] = []"
  by (simp add: py_rstrip_def)

lemma py_rstrip_eq_Nil: "py_rstrip ws s = [] \<longleftrightarrow> (\<forall>c\<in>set s. ws c)"
  by (simp add: py_rstrip_def)

lemma py_rstrip_Cons:
  "py_rstrip ws (c # cs) = (if py_rstrip ws cs = [] \<and> ws c then [] else c # py_rstrip ws cs)"
  by (auto simp: py_rstrip_def dropWhile_append)

lemma py_rstrip_append:
  "py_rstrip ws (w @ x) = (if py_rstrip ws x = [] then py_rstrip ws w else w @ py_rstrip ws x)"
  by (induction w) (auto simp: py_rstrip_Cons)

lemma py_rstrip_id: "\<forall>c\<in>set w. \<not> ws c \<Longrightarrow> py_rstrip ws w = w"
  by (induction w) (auto simp: py_rstrip_Cons py_rstrip_eq_Nil)

lemma dropWhile_py_rstrip: "dropWhile ws (py_rstrip ws x) = py_rstrip ws (dropWhile ws x)"
  by (induction x) (auto simp: py_rstrip_Cons py_rstrip_eq_Nil dropWhile_all)

lemma collapse_append_word:
  "\<forall>c\<in>set w. \<not> ws c \<Longrightarrow>
   collapse_whitespace_runs ws (w @ x) = w @ collapse_whitespace_runs ws x"
  by (induction w) auto

lemma py_split_blank: "dropWhile ws s = [] \<Longrightarrow> py_split ws s = []"
  by (subst py_split.simps) (simp add: Let_def)

lemma py_split_nonblank:
  "dropWhile ws s \<noteq> [] \<Longrightarrow>
   py_split ws s = takeWhile (\<lambda>c. \<not> ws c) (dropWhile ws s)
                     # py_split ws (dropWhile (\<lambda>c. \<not> ws c) (dropWhile ws s))"
  by (subst py_split.simps) (simp add: Let_def)

lemma py_strip_word_blank:
  assumes "\<forall>c\<in>set w. \<not> ws c" and "\<forall>c\<in>set rest. ws c"
  shows "py_rstrip ws (w @ rest) = w"
proof -
  have "py_rstrip ws rest = []" using assms(2) by (simp add: py_rstrip_eq_Nil)
  then have "py_rstrip ws (w @ rest) = py_rstrip ws w" by (simp add: py_rstrip_append)
  with assms(1) show ?thesis by (simp add: py_rstrip_id)
qed

lemma py_strip_skip: "ws c \<Longrightarrow> py_strip ws (c # cs) = py_strip ws cs"
  by (simp add: py_strip_def)

lemma collapse_word_then_rest:
  assumes w: "\<forall>c\<in>set w. \<not> ws c" and c: "ws c" and nb: "\<not> (\<forall>c\<in>set rest'. ws c)"
  shows "collapse_whitespace_runs ws (py_rstrip ws (w @ c # rest'))
           = w @ CHR '' '' # collapse_whitespace_runs ws (py_strip ws (c # rest'))"
proof -
  have ne: "py_rstrip ws rest' \<noteq> []" using nb by (simp add: py_rstrip_eq_Nil)
  then have "py_rstrip ws (c # rest') = c # py_rstrip ws rest'"
    by (simp add: py_rstrip_Cons)
  then have "py_rstrip ws (w @ c # rest') = w @ c # py_rstrip ws rest'"
    by (simp add: py_rstrip_append)
  then have "collapse_whitespace_runs ws (py_rstrip ws (w @ c # rest'))
      = w @ CHR '' '' # collapse_whitespace_runs ws (dropWhile ws (py_rstrip ws rest'))"
    using w c by (simp add: collapse_append_word)
  moreover have "dropWhile ws (py_rstrip ws rest') = py_strip ws (c # rest')"
    using c by (simp add: dropWhile_py_rstrip py_strip_def)
  ultimately show ?thesis by simp
qed

lemma join_split_collapse:
  "py_join '' '' (py_split ws s) = collapse_whitespace_runs ws (py_strip ws s)"
proof (induction ws s rule: py_split.induct)
  case (1 ws s)
  define r where "r = dropWhile ws s"
  show ?case
  proof (cases "r = []")
    case True
    then have "py_split ws s = []" unfolding r_def by (rule py_split_blank)
    moreover have "py_strip ws s = []" using True by (simp add: py_strip_def r_def [symmetric])
    ultimately show ?thesis by simp
  next
    case False
    define w where "w = takeWhile (\<lambda>c. \<not> ws c) r"
    define rest where "rest = dropWhile (\<lambda>c. \<not> ws c) r"
    have IH: "py_join '' '' (py_split ws rest) = collapse_whitespace_runs ws (py_strip ws rest)"
      unfolding rest_def using "1.IH" [OF r_def False] .
    have sp: "py_split ws s = w # py_split ws rest"
      unfolding w_def rest_def r_def using False [unfolded r_def] by (rule py_split_nonblank)
    have wfree: "\<forall>c\<in>set w. \<not> ws c"
      unfolding w_def by (auto dest: set_takeWhileD)
    have r: "r = w @ rest" unfolding w_def rest_def by simp
    have strip_s: "py_strip ws s = py_rstrip ws (w @ rest)"
      unfolding py_strip_def r_def [symmetric] r ..
    show ?thesis
    proof (cases "dropWhile ws rest = []")
      case True
      then have "py_split ws rest = []" by (rule py_split_blank)
      moreover from True have "\<forall>c\<in>set rest. ws c" by simp
      then have "py_strip ws s = w"
        unfolding strip_s using wfree by (simp only: py_strip_word_blank)
      moreover have "collapse_whitespace_runs ws w = w"
        using collapse_append_word [OF wfree, of "[]"] by simp
      ultimately show ?thesis by (simp add: sp)
    next
      case nonblank: False
      then obtain c rest' where rest: "rest = c # rest'"
        by (cases rest) auto
      have "rest \<noteq> []" using rest by simp
      then have "\<not> \<not> ws (hd rest)" unfolding rest_def by (rule hd_dropWhile)
      then have wsc: "ws c" using rest by simp
      have nb: "\<not> (\<forall>c\<in>set rest'. ws c)"
        using nonblank rest wsc by simp
      obtain v vs where vs: "py_split ws rest = v # vs"
        using py_split_nonblank [OF nonblank] by blast
      have "py_join '' '' (py_split ws s) = w @ '' '' @ py_join '' '' (py_split ws rest)"
        by (simp add: sp vs)
      also have "\<dots> = w @ '' '' @ collapse_whitespace_runs ws (py_strip ws rest)"
        by (simp only: IH)
      also have "\<dots> = collapse_whitespace_runs ws (py_strip ws s)"
        unfolding strip_s rest using collapse_word_then_rest [OF wfree wsc nb] by simp
      finally show ?thesis .
    qed
  qed
qed

lemma collapse_head:
  "collapse_whitespace_runs ws (dropWhile ws cs) = [] \<or>
   \<not> ws (hd (collapse_whitespace_runs ws (dropWhile ws cs)))"
proof (cases "dropWhile ws cs")
  case Nil
  then show ?thesis by (simp only: collapse_whitespace_runs.simps simp_thms)
next
  case (Cons d ds)
  then have "\<not> ws d" by (metis hd_dropWhile list.distinct(1) list.sel(1))
  with Cons show ?thesis by simp
qed

lemma has_whitespace_run_Cons:
  "has_whitespace_run ws (a # s) = (s \<noteq> [] \<and> ((ws a \<and> ws (hd s)) \<or> has_whitespace_run ws s))"
  by (cases s) auto

lemma collapse_no_run: "\<not> has_whitespace_run ws (collapse_whitespace_runs ws s)"
proof (induction ws s rule: collapse_whitespace_runs.induct)
  case (1 ws)
  then show ?case by simp
next
  case (2 ws c cs)
  show ?case
  proof (cases "ws c")
    case True
    with 2 collapse_head [of ws cs] show ?thesis
      by (auto simp: has_whitespace_run_Cons)
  next
    case False
    with 2 show ?thesis by (auto simp: has_whitespace_run_Cons)
  qed
qed

lemma take_no_run: "\<not> has_whitespace_run ws s \<Longrightarrow> \<not> has_whitespace_run ws (take n s)"
proof (induction ws s arbitrary: n rule: has_whitespace_run.induct)
  case (1 ws a b cs)
  show ?case
  proof (cases n)
    case 0
    then show ?thesis by simp
  next
    case (Suc k)
    show ?thesis
    proof (cases k)
      case 0
      with Suc show ?thesis by simp
    next
      case (Suc j)
      with 1(1) [of k] 1(2) \<open>n = Suc k\<close> show ?thesis by simp
    qed
  qed
next
  case (2 ws a)
  then show ?case by (cases n) simp_all
next
  case (3 ws)
  then show ?case by simp
qed

text \<open>
  Claim C5, as the code has it. The snippet is the text with leading and trailing
  whitespace removed and every remaining run of whitespace collapsed to a single space,
  then truncated to 191 characters (collapsing comes first); it has at most 191 characters
  and no two whitespace characters next to each other.
\<close>

theorem snippet_collapse_then_truncate:
  "calculate_plaintext_snippet ws text
     = take SNIPPET_LENGTH (collapse_whitespace_runs ws (py_strip ws text))
   \<and> length (calculate_plaintext_snippet ws text) \<le> 191
   \<and> \<not> has_whitespace_run ws (calculate_plaintext_snippet ws text)"
  by (simp add: calculate_plaintext_snippet_def join_split_collapse take_no_run collapse_no_run
      SNIPPET_LENGTH_def)


theorem snippet_collapse_then_truncate_witness:
  "calculate_plaintext_snippet ascii_space ''  Hello   World ''
     = take SNIPPET_LENGTH (collapse_whitespace_runs ascii_space (py_strip ascii_space ''  Hello   World ''))
   \<and> calculate_plaintext_snippet ascii_space ''  Hello   World '' = ''Hello World''"
  using snippet_collapse_then_truncate [of ascii_space "''  Hello   World ''"]
  by (simp add: calculate_plaintext_snippet_def py_split_nonblank py_split_blank ascii_space_def
      SNIPPET_LENGTH_def)

text \<open>
  Claim C5 as stated, with every run of whitespace of the text itself collapsed to a single
  space, fails on a text that starts with whitespace: \<open>split()\<close> drops the leading run,
  it does not turn it into a space.
\<close>

theorem snippet_leading_whitespace_counterexample:
  "calculate_plaintext_snippet ascii_space '' a''
     \<noteq> take SNIPPET_LENGTH (collapse_whitespace_runs ascii_space '' a'')"
  by (simp add: calculate_plaintext_snippet_def py_split_nonblank py_split_blank ascii_space_def
      SNIPPET_LENGTH_def)

section \<open>Properties of error recovery\<close>

lemma mark_error_sets:
  "decode_error (mark_error now m)"
  "size_attr (mark_error now m) = Some 0"
  "received_date (mark_error now m) = Some (case received_date m of None \<Rightarrow> now | Some d \<Rightarrow> d)"
  "sanitized_body (mark_error now m) = Some (case sanitized_body m of None \<Rightarrow> [] | Some b \<Rightarrow> b)"
  "snippet (mark_error now m) = Some (case snippet m of None \<Rightarrow> [] | Some s \<Rightarrow> s)"
  by (simp_all add: mark_error_def split: option.split)

lemma mark_error_keeps:
  "namespace_id (mark_error now m) = namespace_id m"
  "from_addr (mark_error now m) = from_addr m"
  "sender_addr (mark_error now m) = sender_addr m"
  "reply_to (mark_error now m) = reply_to m"
  "to_addr (mark_error now m) = to_addr m"
  "cc_addr (mark_error now m) = cc_addr m"
  "bcc_addr (mark_error now m) = bcc_addr m"
  "in_reply_to (mark_error now m) = in_reply_to m"
  "message_id_header (mark_error now m) = message_id_header m"
  "subject (mark_error now m) = subject m"
  "data_sha256 (mark_error now m) = data_sha256 m"
  "full_body (mark_error now m) = full_body m"
  "inbox_uid (mark_error now m) = inbox_uid m"
  "references (mark_error now m) = references m"
  "parts (mark_error now m) = parts m"
  by (simp_all add: mark_error_def)

lemma mark_error_keeps_set:
  "received_date m = Some d \<Longrightarrow> received_date (mark_error now m) = Some d"
  "sanitized_body m = Some b \<Longrightarrow> sanitized_body (mark_error now m) = Some b"
  "snippet m = Some s \<Longrightarrow> snippet (mark_error now m) = Some s"
  by (simp_all add: mark_error_def)

text \<open>
  Claim C2. The error-recovery marker fills only gaps: \<open>size\<close> becomes 0 only when it is not
  already set. The code assigns \<open>self.size = 0\<close> without a test: a message whose size was
  parsed as 1024 leaves the marker with size 0.
\<close>

theorem mark_error_overwrites_parsed_size:
  "size_attr (Message\<lparr> size_attr := Some 1024 \<rparr>) = Some 1024
   \<and> size_attr (mark_error now (Message\<lparr> size_attr := Some 1024 \<rparr>)) = Some 0"
  by (simp add: mark_error_def Message_def)

section \<open>Properties of the participants\<close>

















section \<open>Properties of parsing one part\<close>

lemma parse_mimepart_rejected:
  "\<not> accepted mimepart \<Longrightarrow>
   parse_mimepart env mimepart index ns m = (None, mark_error (utcnow env) m)"
  by (simp add: parse_mimepart_def accepted_def Let_def)

lemma parse_mimepart_accepted:
  assumes "accepted mimepart"
  shows "\<exists>p. snd (parse_mimepart env mimepart index ns m) = attach p m
           \<and> walk_index p = Some index
           \<and> content_type (block p) = Some (mp_content_type_value mimepart)
           \<and> filename (block p)
               = trim_filename (if mp_disposition mimepart = Some ''attachment''
                                then mp_disposition_filename mimepart else mp_name mimepart)
           \<and> (case data_to_write env mimepart (mp_content_type_value mimepart) of
                 Inl e \<Rightarrow> fst (parse_mimepart env mimepart index ns m) = Some e
                          \<and> data (block p) = None
               | Inr d \<Rightarrow> fst (parse_mimepart env mimepart index ns m) = None
                          \<and> data (block p) = Some d)"
proof (cases "data_to_write env mimepart (mp_content_type_value mimepart)")
  case (Inl e)
  with assms show ?thesis
    by (auto simp: parse_mimepart_def accepted_def Let_def Part_def)
next
  case (Inr d)
  with assms show ?thesis
    by (auto simp: parse_mimepart_def accepted_def Let_def Part_def)
qed

text \<open>
  Claim C8, as the code has it. A leaf part whose disposition is absent, \<open>inline\<close> or
  \<open>attachment\<close> gets one Part, whose block's filename is the \<open>filename\<close> parameter of
  Content-Disposition when the disposition is \<open>attachment\<close> (also when that parameter is
  absent) and the \<open>name\<close> parameter of the content type otherwise, truncated by
  \<open>_trim_filename\<close>. A leaf part with another disposition gets no Part and no Block: the
  message is marked as in error and its parts stay as they are.
\<close>

theorem parse_mimepart_filename:
  "(accepted mimepart \<longrightarrow>
      (\<exists>p. parts (snd (parse_mimepart env mimepart index ns m)) = parts m @ [p]
           \<and> filename (block p)
               = trim_filename (if mp_disposition mimepart = Some ''attachment''
                                then mp_disposition_filename mimepart else mp_name mimepart)))
   \<and> (\<not> accepted mimepart \<longrightarrow>
        parse_mimepart env mimepart index ns m = (None, mark_error (utcnow env) m)
        \<and> parts (mark_error (utcnow env) m) = parts m)"
proof (intro conjI impI)
  assume a: "accepted mimepart"
  from parse_mimepart_accepted [OF a, of env index ns m]
  obtain p where "snd (parse_mimepart env mimepart index ns m) = attach p m"
    and "filename (block p)
           = trim_filename (if mp_disposition mimepart = Some ''attachment''
                            then mp_disposition_filename mimepart else mp_name mimepart)"
    by blast
  then show "\<exists>p. parts (snd (parse_mimepart env mimepart index ns m)) = parts m @ [p]
           \<and> filename (block p)
               = trim_filename (if mp_disposition mimepart = Some ''attachment''
                                then mp_disposition_filename mimepart else mp_name mimepart)"
    by (auto simp: attach_def)
next
  assume "\<not> accepted mimepart"
  then show "parse_mimepart env mimepart index ns m = (None, mark_error (utcnow env) m)"
    by (rule parse_mimepart_rejected)
next
  show "parts (mark_error (utcnow env) m) = parts m"
    by (simp add: mark_error_keeps)
qed

theorem parse_mimepart_filename_witness:
  "accepted (attachment (Some ''n.pdf'') (Some (replicate 60 CHR ''a'' @ ''-name.pdf'')))
   \<and> (\<exists>p. parts (snd (parse_mimepart (example_env (\<lambda>raw. Inl DecodingError))
                (attachment (Some ''n.pdf'') (Some (replicate 60 CHR ''a'' @ ''-name.pdf'')))
                1 7 Message)) = [p]
          \<and> filename (block p) = Some (replicate 56 CHR ''a'' @ ''name.pdf''))
   \<and> \<not> accepted form_data
   \<and> parse_mimepart (example_env (\<lambda>raw. Inl DecodingError)) form_data 1 7 Message
       = (None, mark_error 2000 Message)"
proof -
  let ?env = "example_env (\<lambda>raw. Inl DecodingError)"
  let ?mp = "attachment (Some ''n.pdf'') (Some (replicate 60 CHR ''a'' @ ''-name.pdf''))"
  have h: "accepted ?mp" by (simp add: accepted_def attachment_def leaf_def)
  have n: "\<not> accepted form_data" by (simp add: accepted_def form_data_def leaf_def)
  have t: "trim_filename (Some (replicate 60 CHR ''a'' @ ''-name.pdf''))
             = Some (replicate 56 CHR ''a'' @ ''name.pdf'')"
    by (simp add: trim_filename_long)
  from parse_mimepart_filename [of ?mp ?env 1 7 Message] h
  have "\<exists>p. parts (snd (parse_mimepart ?env ?mp 1 7 Message)) = [p]
          \<and> filename (block p) = Some (replicate 56 CHR ''a'' @ ''name.pdf'')"
    by (simp add: attachment_def leaf_def Message_def t)
  moreover from parse_mimepart_filename [of form_data ?env 1 7 Message] n
  have "parse_mimepart ?env form_data 1 7 Message = (None, mark_error 2000 Message)"
    by (simp add: example_env_def)
  ultimately show ?thesis using h n by blast
qed

text \<open>
  Claim C8 as stated, for every leaf part and with the content type's name used whenever
  the Content-Disposition filename is not: an attachment that has no \<open>filename\<close> parameter
  and whose content type has the name \<open>n.pdf\<close> gets no filename at all, and a leaf part of
  disposition \<open>form-data\<close> gets no Block.
\<close>

theorem attachment_without_filename_counterexample:
  "map (\<lambda>p. filename (block p))
     (parts (snd (parse_mimepart (example_env (\<lambda>raw. Inl DecodingError))
                    (attachment (Some ''n.pdf'') None) 1 7 Message))) = [None]
   \<and> parts (snd (parse_mimepart (example_env (\<lambda>raw. Inl DecodingError))
                    form_data 1 7 Message)) = []"
  by (simp add: parse_mimepart_def attachment_def form_data_def leaf_def Let_def Part_def
      attach_def data_to_write_def startswith_def trim_filename_def trim_filename_len_def
      example_env_def Message_def mark_error_def)

section \<open>Properties of body selection\<close>

lemma first_of_type_find:
  "first_of_type env ct ps =
     (case find (\<lambda>p. content_type (block p) = Some ct) ps of
        None \<Rightarrow> Inr None
      | Some p \<Rightarrow> (case decoded_text env p of Inl e \<Rightarrow> Inl e | Inr t \<Rightarrow> Inr (Some t)))"
  by (induction ps) simp_all

lemma first_of_type_selected: "first_of_type env ct (parts m) = selected env ct m"
  by (simp add: first_of_type_find selected_def first_part_def)

lemma selected_decoded: "selected env ct m = decoded_of env (first_part ct m)"
  by (simp add: selected_def decoded_of_def)

lemma before_asym: "before p q \<Longrightarrow> \<not> before q p"
  by (auto simp: before_def split: option.splits)

lemma before_irrefl: "\<not> before p p"
  by (auto simp: before_def split: option.splits)

lemma find_first_in_order:
  assumes "sorted_wrt before ps" and "p \<in> set ps" and "P p"
    and "\<forall>q\<in>set ps. P q \<longrightarrow> q = p \<or> before p q"
  shows "find P ps = Some p"
  using assms
proof (induction ps)
  case Nil
  then show ?case by simp
next
  case (Cons x xs)
  show ?case
  proof (cases "P x")
    case True
    have "x = p"
    proof (rule ccontr)
      assume ne: "x \<noteq> p"
      with Cons.prems(4) True have bpx: "before p x" by auto
      from ne Cons.prems(2) have "p \<in> set xs" by auto
      with Cons.prems(1) have "before x p" by simp
      with bpx show False by (auto dest: before_asym)
    qed
    with True show ?thesis by simp
  next
    case False
    with Cons.prems(3) have "x \<noteq> p" by auto
    with Cons.prems(2) have "p \<in> set xs" by auto
    moreover from Cons.prems(1) have "sorted_wrt before xs" by simp
    moreover from Cons.prems(4) have "\<forall>q\<in>set xs. P q \<longrightarrow> q = p \<or> before p q" by simp
    ultimately have "find P xs = Some p" using Cons.prems(3) by (intro Cons.IH)
    with False show ?thesis by simp
  qed
qed

lemma first_in_walk_first_part:
  assumes "walk_ordered m" and "first_in_walk ct m sel"
  shows "first_part ct m = sel"
proof (cases sel)
  case None
  with assms(2) have "\<not> (\<exists>q\<in>set (parts m). content_type (block q) = Some ct)"
    by (simp add: first_in_walk_def)
  then have "find (\<lambda>p. content_type (block p) = Some ct) (parts m) = None"
    by (simp add: find_None_iff)
  with None show ?thesis by (simp add: first_part_def)
next
  case (Some p)
  with assms(2) have "p \<in> set (parts m)" and "content_type (block p) = Some ct"
    and "\<forall>q\<in>set (parts m). content_type (block q) = Some ct \<longrightarrow> q = p \<or> before p q"
    by (simp_all add: first_in_walk_def)
  with assms(1) have "find (\<lambda>p. content_type (block p) = Some ct) (parts m) = Some p"
    unfolding walk_ordered_def by (intro find_first_in_order) simp_all
  with Some show ?thesis by (simp add: first_part_def)
qed

lemma body_in_walk:
  assumes "walk_ordered m" and "parts m \<noteq> []"
    and "first_in_walk ''text/html'' m hp" and "first_in_walk ''text/plain'' m pp"
  shows "body env m =
           (case decoded_of env hp of
              Inl e \<Rightarrow> Inl e
            | Inr html \<Rightarrow>
                (case decoded_of env pp of
                   Inl e \<Rightarrow> Inl e
                 | Inr plain \<Rightarrow> Inr (plain, html)))"
proof -
  have h: "first_of_type env ''text/html'' (parts m) = decoded_of env hp"
    using first_in_walk_first_part [OF assms(1,3)]
    by (simp add: first_of_type_selected selected_decoded)
  have p: "first_of_type env ''text/plain'' (parts m) = decoded_of env pp"
    using first_in_walk_first_part [OF assms(1,4)]
    by (simp add: first_of_type_selected selected_decoded)
  show ?thesis
    unfolding body_def h p using assms(2) by simp
qed

lemma sanitized_raises:
  "body env m = Inl e \<Longrightarrow> calculate_sanitized_body env m = (Some e, m)"
  by (simp add: calculate_sanitized_body_def)

lemma sanitized_html:
  assumes "body env m = Inr (plain, Some h)" and "h \<noteq> []" and "CR \<notin> set h"
    and "strip_tags env h = Inr t"
  shows "calculate_sanitized_body env m
           = (None, m\<lparr> snippet := Some (calculate_plaintext_snippet (isspace env) t),
                       sanitized_body := Some h \<rparr>)"
  using assms
  by (simp add: calculate_sanitized_body_def truthy_def text_of_def calculate_html_snippet_def)

lemma sanitized_html_cr:
  assumes "body env m = Inr (plain, Some h)" and "h \<noteq> []" and "CR \<in> set h"
  shows "calculate_sanitized_body env m = (Some AssertionError, m)"
  using assms
  by (simp add: calculate_sanitized_body_def truthy_def text_of_def)

lemma sanitized_html_tags:
  assumes "body env m = Inr (plain, Some h)" and "h \<noteq> []" and "CR \<notin> set h"
    and "strip_tags env h = Inl e"
  shows "calculate_sanitized_body env m = (Some e, m)"
  using assms
  by (simp add: calculate_sanitized_body_def truthy_def text_of_def calculate_html_snippet_def)

lemma sanitized_plain:
  assumes "body env m = Inr (Some t, html)" and "\<not> truthy html" and "t \<noteq> []"
    and "plaintext2html env t = Inr h"
  shows "calculate_sanitized_body env m
           = (None, m\<lparr> snippet := Some (calculate_plaintext_snippet (isspace env) t),
                       sanitized_body := Some h \<rparr>)"
  using assms
  by (simp add: calculate_sanitized_body_def truthy_def text_of_def)

lemma sanitized_plain_raises:
  assumes "body env m = Inr (Some t, html)" and "\<not> truthy html" and "t \<noteq> []"
    and "plaintext2html env t = Inl e"
  shows "calculate_sanitized_body env m
           = (Some e, m\<lparr> snippet := Some (calculate_plaintext_snippet (isspace env) t) \<rparr>)"
  using assms
  by (simp add: calculate_sanitized_body_def truthy_def text_of_def)

lemma sanitized_empty:
  assumes "body env m = Inr (plain, html)" and "\<not> truthy html" and "\<not> truthy plain"
  shows "calculate_sanitized_body env m
           = (None, m\<lparr> sanitized_body := Some [], snippet := Some [] \<rparr>)"
  using assms
  by (simp add: calculate_sanitized_body_def)

lemma py_strip_blank: "\<forall>c\<in>set u. ws c \<Longrightarrow> py_strip ws u = []"
  by (simp add: py_strip_def dropWhile_all)

text \<open>
  Claim C6, as the code has it. For a message whose parts are listed in walk order, body
  sanitization reads the first \<open>text/html\<close> part and the first \<open>text/plain\<close> part in walk
  order, each decoded and stripped of surrounding whitespace; a failure to decode either
  is raised and nothing is stored. When the stripped HTML is not empty, it is stored as
  \<open>sanitized_body\<close> and the snippet is derived from it with the tags stripped, unless it
  holds a carriage return (an \<open>AssertionError\<close>) or stripping the tags fails: then nothing
  is stored. Otherwise, when the stripped plain text is not empty, the snippet is derived
  from it directly and its conversion to HTML is stored as \<open>sanitized_body\<close>; when the
  conversion fails, only the snippet is stored. Otherwise both are the empty string.
\<close>

theorem body_selection:
  assumes "walk_ordered m" and "parts m \<noteq> []"
    and "first_in_walk ''text/html'' m hp" and "first_in_walk ''text/plain'' m pp"
  shows "(\<forall>e. decoded_of env hp = Inl e \<longrightarrow> calculate_sanitized_body env m = (Some e, m))
       \<and> (\<forall>html e. decoded_of env hp = Inr html \<and> decoded_of env pp = Inl e \<longrightarrow>
            calculate_sanitized_body env m = (Some e, m))
       \<and> (\<forall>plain h. decoded_of env hp = Inr (Some h) \<and> decoded_of env pp = Inr plain \<and> h \<noteq> [] \<longrightarrow>
            (CR \<in> set h \<longrightarrow> calculate_sanitized_body env m = (Some AssertionError, m))
            \<and> (\<forall>e. CR \<notin> set h \<and> strip_tags env h = Inl e \<longrightarrow>
                  calculate_sanitized_body env m = (Some e, m))
            \<and> (\<forall>t. CR \<notin> set h \<and> strip_tags env h = Inr t \<longrightarrow>
                  calculate_sanitized_body env m
                    = (None, m\<lparr> snippet := Some (calculate_plaintext_snippet (isspace env) t),
                                sanitized_body := Some h \<rparr>)))
       \<and> (\<forall>html t. decoded_of env hp = Inr html \<and> \<not> truthy html
                   \<and> decoded_of env pp = Inr (Some t) \<and> t \<noteq> [] \<longrightarrow>
            (\<forall>e. plaintext2html env t = Inl e \<longrightarrow>
                  calculate_sanitized_body env m
                    = (Some e, m\<lparr> snippet := Some (calculate_plaintext_snippet (isspace env) t) \<rparr>))
            \<and> (\<forall>b. plaintext2html env t = Inr b \<longrightarrow>
                  calculate_sanitized_body env m
                    = (None, m\<lparr> snippet := Some (calculate_plaintext_snippet (isspace env) t),
                                sanitized_body := Some b \<rparr>)))
       \<and> (\<forall>html plain. decoded_of env hp = Inr html \<and> \<not> truthy html
                   \<and> decoded_of env pp = Inr plain \<and> \<not> truthy plain \<longrightarrow>
            calculate_sanitized_body env m
              = (None, m\<lparr> sanitized_body := Some [], snippet := Some [] \<rparr>))"
proof -
  note b = body_in_walk [OF assms, of env]
  have 1: "\<forall>e. decoded_of env hp = Inl e \<longrightarrow> calculate_sanitized_body env m = (Some e, m)"
    using b by (auto intro: sanitized_raises)
  have 2: "\<forall>html e. decoded_of env hp = Inr html \<and> decoded_of env pp = Inl e \<longrightarrow>
            calculate_sanitized_body env m = (Some e, m)"
    using b by (auto intro: sanitized_raises)
  have 3: "\<forall>plain h. decoded_of env hp = Inr (Some h) \<and> decoded_of env pp = Inr plain \<and> h \<noteq> [] \<longrightarrow>
            (CR \<in> set h \<longrightarrow> calculate_sanitized_body env m = (Some AssertionError, m))
            \<and> (\<forall>e. CR \<notin> set h \<and> strip_tags env h = Inl e \<longrightarrow>
                  calculate_sanitized_body env m = (Some e, m))
            \<and> (\<forall>t. CR \<notin> set h \<and> strip_tags env h = Inr t \<longrightarrow>
                  calculate_sanitized_body env m
                    = (None, m\<lparr> snippet := Some (calculate_plaintext_snippet (isspace env) t),
                                sanitized_body := Some h \<rparr>))"
  proof (intro allI impI)
    fix plain h
    assume "decoded_of env hp = Inr (Some h) \<and> decoded_of env pp = Inr plain \<and> h \<noteq> []"
    with b have bb: "body env m = Inr (plain, Some h)" and h: "h \<noteq> []" by simp_all
    show "(CR \<in> set h \<longrightarrow> calculate_sanitized_body env m = (Some AssertionError, m))
            \<and> (\<forall>e. CR \<notin> set h \<and> strip_tags env h = Inl e \<longrightarrow>
                  calculate_sanitized_body env m = (Some e, m))
            \<and> (\<forall>t. CR \<notin> set h \<and> strip_tags env h = Inr t \<longrightarrow>
                  calculate_sanitized_body env m
                    = (None, m\<lparr> snippet := Some (calculate_plaintext_snippet (isspace env) t),
                                sanitized_body := Some h \<rparr>))"
      using sanitized_html_cr [OF bb h] sanitized_html_tags [OF bb h] sanitized_html [OF bb h]
      by blast
  qed
  have 4: "\<forall>html t. decoded_of env hp = Inr html \<and> \<not> truthy html
                   \<and> decoded_of env pp = Inr (Some t) \<and> t \<noteq> [] \<longrightarrow>
            (\<forall>e. plaintext2html env t = Inl e \<longrightarrow>
                  calculate_sanitized_body env m
                    = (Some e, m\<lparr> snippet := Some (calculate_plaintext_snippet (isspace env) t) \<rparr>))
            \<and> (\<forall>b. plaintext2html env t = Inr b \<longrightarrow>
                  calculate_sanitized_body env m
                    = (None, m\<lparr> snippet := Some (calculate_plaintext_snippet (isspace env) t),
                                sanitized_body := Some b \<rparr>))"
  proof (intro allI impI)
    fix html t
    assume "decoded_of env hp = Inr html \<and> \<not> truthy html
              \<and> decoded_of env pp = Inr (Some t) \<and> t \<noteq> []"
    with b have bb: "body env m = Inr (Some t, html)" and f: "\<not> truthy html" and t: "t \<noteq> []"
      by simp_all
    show "(\<forall>e. plaintext2html env t = Inl e \<longrightarrow>
                  calculate_sanitized_body env m
                    = (Some e, m\<lparr> snippet := Some (calculate_plaintext_snippet (isspace env) t) \<rparr>))
            \<and> (\<forall>b. plaintext2html env t = Inr b \<longrightarrow>
                  calculate_sanitized_body env m
                    = (None, m\<lparr> snippet := Some (calculate_plaintext_snippet (isspace env) t),
                                sanitized_body := Some b \<rparr>))"
      using sanitized_plain_raises [OF bb f t] sanitized_plain [OF bb f t] by blast
  qed
  have 5: "\<forall>html plain. decoded_of env hp = Inr html \<and> \<not> truthy html
                   \<and> decoded_of env pp = Inr plain \<and> \<not> truthy plain \<longrightarrow>
            calculate_sanitized_body env m
              = (None, m\<lparr> sanitized_body := Some [], snippet := Some [] \<rparr>)"
    using b by (auto intro: sanitized_empty)
  from 1 2 3 4 5 show ?thesis by (intro conjI)
qed

lemma example_ordered: "walk_ordered (example_message html plain)"
  by (simp add: walk_ordered_def example_message_def headers_part_def Part_def stored_part_def
      before_def)

lemma example_first:
  "first_in_walk ''text/html'' (example_message html plain) (Some (stored_part 1 ''text/html'' html))"
  "first_in_walk ''text/plain'' (example_message html plain) (Some (stored_part 2 ''text/plain'' plain))"
  "parts (example_message html plain) \<noteq> []"
  by (simp_all add: first_in_walk_def example_message_def headers_part_def Part_def
      stored_part_def before_def)

lemma example_decoded:
  "decoded_of (example_env tok) (Some (stored_part i ct d)) = Inr (Some (py_strip unicode_space d))"
  by (simp add: decoded_of_def decoded_text_def stored_part_def example_env_def)

lemma example_strip:
  "py_strip unicode_space '' <p>Hi  there</p> '' = ''<p>Hi  there</p>''"
  "py_strip unicode_space '' Hi there '' = ''Hi there''"
  "py_strip unicode_space '' '' = []"
  "py_strip unicode_space [CHR '' '', CHR 0xA0, CHR 0x0A] = []"
  "py_strip unicode_space ''hi'' = ''hi''"
  "py_strip unicode_space ''<p>x</p>'' = ''<p>x</p>''"
  by (simp_all add: py_strip_def py_rstrip_def unicode_space_def ascii_space_def)

lemma unicode_snippet:
  "calculate_plaintext_snippet unicode_space ''Hi  there'' = ''Hi there''"
  "calculate_plaintext_snippet unicode_space ''Hi there'' = ''Hi there''"
  "calculate_plaintext_snippet unicode_space ''hi'' = ''hi''"
  "calculate_plaintext_snippet unicode_space ''x'' = ''x''"
  by (simp_all add: calculate_plaintext_snippet_def py_split_nonblank py_split_blank
      unicode_space_def ascii_space_def SNIPPET_LENGTH_def)

lemma example_snippet:
  "calculate_plaintext_snippet (isspace (example_env tok)) t = calculate_plaintext_snippet unicode_space t"
  by (simp add: example_env_def)

theorem body_selection_witness:
  "walk_ordered (example_message '' <p>Hi  there</p> '' '' Hi there '')
   \<and> calculate_sanitized_body (example_env (\<lambda>raw. Inl DecodingError))
       (example_message '' <p>Hi  there</p> '' '' Hi there '')
     = (None, (example_message '' <p>Hi  there</p> '' '' Hi there '')
                \<lparr> snippet := Some ''Hi there'', sanitized_body := Some ''<p>Hi  there</p>'' \<rparr>)"
proof -
  let ?env = "example_env (\<lambda>raw. Inl DecodingError)"
  let ?m = "example_message '' <p>Hi  there</p> '' '' Hi there ''"
  have s: "strip_tags ?env ''<p>Hi  there</p>'' = Inr ''Hi  there''"
    by (simp add: example_env_def)
  have cr: "CR \<notin> set ''<p>Hi  there</p>''" by (simp add: CR_def)
  from body_selection [OF example_ordered example_first(3) example_first(1) example_first(2),
      where env = ?env]
  have "calculate_sanitized_body ?env ?m
          = (None, ?m\<lparr> snippet := Some ''Hi there'', sanitized_body := Some ''<p>Hi  there</p>'' \<rparr>)"
    using s cr by (simp add: example_decoded example_strip example_snippet unicode_snippet)
  with example_ordered show ?thesis by simp
qed

text \<open>
  Claim C6 as stated stores the HTML whenever a \<open>text/html\<close> part exists. A message whose
  first \<open>text/html\<close> part holds a single space and whose \<open>text/plain\<close> part holds \<open>hi\<close>
  gets the converted plain text.
\<close>

theorem html_part_exists_counterexample:
  "first_part ''text/html'' (example_message '' '' ''hi'') = Some (stored_part 1 ''text/html'' '' '')
   \<and> calculate_sanitized_body (example_env (\<lambda>raw. Inl DecodingError)) (example_message '' '' ''hi'')
       = (None, (example_message '' '' ''hi'')
                  \<lparr> snippet := Some ''hi'', sanitized_body := Some ''<p>hi</p>'' \<rparr>)"
proof -
  let ?env = "example_env (\<lambda>raw. Inl DecodingError)"
  let ?m = "example_message '' '' ''hi''"
  have f: "first_part ''text/html'' ?m = Some (stored_part 1 ''text/html'' '' '')"
    by (simp add: first_part_def example_message_def headers_part_def Part_def stored_part_def)
  have b: "body ?env ?m = Inr (Some ''hi'', Some [])"
    using body_in_walk [OF example_ordered example_first(3) example_first(1) example_first(2),
      where env = ?env]
    by (simp add: example_decoded example_strip)
  have "calculate_sanitized_body ?env ?m
          = (None, ?m\<lparr> snippet := Some ''hi'', sanitized_body := Some ''<p>hi</p>'' \<rparr>)"
    using sanitized_plain [OF b, of "''<p>hi</p>''"]
    by (simp add: truthy_def example_env_def unicode_snippet)
  with f show ?thesis by simp
qed

text \<open>
  Claim C10, as the code has it. When the first \<open>text/html\<close> part in walk order, the one
  body selection reads, decodes to nothing but whitespace, the HTML is never stored:
  selection goes on with the first \<open>text/plain\<close> part in walk order. A failure to decode
  it is raised; when its stripped text is not empty, the snippet is derived from it and its
  conversion to HTML is stored as \<open>sanitized_body\<close> (only the snippet when the conversion
  fails); otherwise both are the empty string.
\<close>

theorem blank_html_falls_through:
  assumes "walk_ordered m" and "parts m \<noteq> []"
    and "first_in_walk ''text/html'' m (Some p)" and "data (block p) = Some d"
    and "utf8_decode env d = Inr u" and "\<forall>c\<in>set u. isspace env c"
    and "first_in_walk ''text/plain'' m pp"
  shows "(\<forall>e. decoded_of env pp = Inl e \<longrightarrow> calculate_sanitized_body env m = (Some e, m))
       \<and> (\<forall>t. decoded_of env pp = Inr (Some t) \<and> t \<noteq> [] \<longrightarrow>
            (\<forall>e. plaintext2html env t = Inl e \<longrightarrow>
                  calculate_sanitized_body env m
                    = (Some e, m\<lparr> snippet := Some (calculate_plaintext_snippet (isspace env) t) \<rparr>))
            \<and> (\<forall>b. plaintext2html env t = Inr b \<longrightarrow>
                  calculate_sanitized_body env m
                    = (None, m\<lparr> snippet := Some (calculate_plaintext_snippet (isspace env) t),
                                sanitized_body := Some b \<rparr>)))
       \<and> (\<forall>plain. decoded_of env pp = Inr plain \<and> \<not> truthy plain \<longrightarrow>
            calculate_sanitized_body env m
              = (None, m\<lparr> sanitized_body := Some [], snippet := Some [] \<rparr>))"
proof -
  have "decoded_text env p = Inr []"
    using assms(4-6) by (simp add: decoded_text_def py_strip_blank)
  then have h: "decoded_of env (Some p) = Inr (Some [])"
    by (simp add: decoded_of_def)
  have nt: "\<not> truthy (Some [])" by (simp add: truthy_def)
  note b = body_in_walk [OF assms(1,2,3,7), of env, unfolded h]
  have 1: "\<forall>e. decoded_of env pp = Inl e \<longrightarrow> calculate_sanitized_body env m = (Some e, m)"
    using b by (auto intro: sanitized_raises)
  have 2: "\<forall>t. decoded_of env pp = Inr (Some t) \<and> t \<noteq> [] \<longrightarrow>
            (\<forall>e. plaintext2html env t = Inl e \<longrightarrow>
                  calculate_sanitized_body env m
                    = (Some e, m\<lparr> snippet := Some (calculate_plaintext_snippet (isspace env) t) \<rparr>))
            \<and> (\<forall>b. plaintext2html env t = Inr b \<longrightarrow>
                  calculate_sanitized_body env m
                    = (None, m\<lparr> snippet := Some (calculate_plaintext_snippet (isspace env) t),
                                sanitized_body := Some b \<rparr>))"
  proof (intro allI impI)
    fix t
    assume "decoded_of env pp = Inr (Some t) \<and> t \<noteq> []"
    with b have bb: "body env m = Inr (Some t, Some [])" and t: "t \<noteq> []" by simp_all
    show "(\<forall>e. plaintext2html env t = Inl e \<longrightarrow>
                  calculate_sanitized_body env m
                    = (Some e, m\<lparr> snippet := Some (calculate_plaintext_snippet (isspace env) t) \<rparr>))
            \<and> (\<forall>b. plaintext2html env t = Inr b \<longrightarrow>
                  calculate_sanitized_body env m
                    = (None, m\<lparr> snippet := Some (calculate_plaintext_snippet (isspace env) t),
                                sanitized_body := Some b \<rparr>))"
      using sanitized_plain_raises [OF bb nt t] sanitized_plain [OF bb nt t] by blast
  qed
  have 3: "\<forall>plain. decoded_of env pp = Inr plain \<and> \<not> truthy plain \<longrightarrow>
            calculate_sanitized_body env m
              = (None, m\<lparr> sanitized_body := Some [], snippet := Some [] \<rparr>)"
    using b nt by (auto intro: sanitized_empty)
  from 1 2 3 show ?thesis by (intro conjI)
qed

theorem blank_html_falls_through_witness:
  "walk_ordered (example_message [CHR '' '', CHR 0xA0, CHR 0x0A] '' Hi there '')
   \<and> list_all (isspace (example_env (\<lambda>raw. Inl DecodingError))) [CHR '' '', CHR 0xA0, CHR 0x0A]
   \<and> calculate_sanitized_body (example_env (\<lambda>raw. Inl DecodingError))
       (example_message [CHR '' '', CHR 0xA0, CHR 0x0A] '' Hi there '')
     = (None, (example_message [CHR '' '', CHR 0xA0, CHR 0x0A] '' Hi there '')
                \<lparr> snippet := Some ''Hi there'', sanitized_body := Some ''<p>Hi there</p>'' \<rparr>)"
proof -
  let ?env = "example_env (\<lambda>raw. Inl DecodingError)"
  let ?blank = "[CHR '' '', CHR 0xA0, CHR 0x0A]"
  let ?m = "example_message ?blank '' Hi there ''"
  have d: "data (block (stored_part 1 ''text/html'' ?blank)) = Some ?blank"
    by (simp add: stored_part_def)
  have u: "utf8_decode ?env ?blank = Inr ?blank"
    by (simp add: example_env_def)
  have w: "\<forall>c\<in>set ?blank. isspace ?env c"
    by (simp add: example_env_def unicode_space_def ascii_space_def)
  have h: "plaintext2html ?env ''Hi there'' = Inr ''<p>Hi there</p>''"
    by (simp add: example_env_def)
  from blank_html_falls_through [OF example_ordered example_first(3) example_first(1) d u w
      example_first(2)]
  have "calculate_sanitized_body ?env ?m
     = (None, ?m\<lparr> snippet := Some ''Hi there'', sanitized_body := Some ''<p>Hi there</p>'' \<rparr>)"
    using h by (simp add: example_decoded example_strip example_snippet unicode_snippet)
  with example_ordered w show ?thesis by (simp add: list_all_iff)
qed

text \<open>
  Claim C10 as stated, for every message that holds a blank \<open>text/html\<close> part: when the
  blank part comes after a \<open>text/html\<close> part that is not blank, selection does not go on
  to the \<open>text/plain\<close> part; the HTML of the earlier part is stored.
\<close>

theorem blank_html_not_first_counterexample:
  "stored_part 2 ''text/html'' '' '' \<in> set (parts two_html_message)
   \<and> calculate_sanitized_body (example_env (\<lambda>raw. Inl DecodingError)) two_html_message
       = (None, two_html_message\<lparr> snippet := Some ''x'', sanitized_body := Some ''<p>x</p>'' \<rparr>)"
proof -
  let ?env = "example_env (\<lambda>raw. Inl DecodingError)"
  have i: "stored_part 2 ''text/html'' '' '' \<in> set (parts two_html_message)"
    by (simp add: two_html_message_def)
  have b: "body ?env two_html_message = Inr (Some ''hi'', Some ''<p>x</p>'')"
    by (simp add: body_def two_html_message_def headers_part_def Part_def stored_part_def
        decoded_text_def example_env_def py_strip_def py_rstrip_def unicode_space_def
        ascii_space_def)
  have cr: "CR \<notin> set ''<p>x</p>''" by (simp add: CR_def)
  have "calculate_sanitized_body ?env two_html_message
          = (None, two_html_message\<lparr> snippet := Some ''x'', sanitized_body := Some ''<p>x</p>'' \<rparr>)"
    using sanitized_html [OF b _ cr, of "''x''"]
    by (simp add: example_env_def unicode_snippet)
  with i show ?thesis by simp
qed

section \<open>Properties of the steps of the pipeline\<close>

lemma run_steps_append:
  "run_steps (xs @ ys) m =
     (case run_steps xs m of (Some e, m') \<Rightarrow> (Some e, m') | (None, m') \<Rightarrow> run_steps ys m')"
  by (induction xs arbitrary: m) (auto split: prod.splits option.splits)

lemma run_steps_invariant:
  "run_steps ss m = (r, m') \<Longrightarrow> P m \<Longrightarrow>
   (\<forall>s\<in>set ss. \<forall>x r' x'. s x = (r', x') \<longrightarrow> P x \<longrightarrow> P x') \<Longrightarrow> P m'"
proof (induction ss arbitrary: m)
  case Nil
  then show ?case by simp
next
  case (Cons s ss)
  obtain r1 m1 where s: "s m = (r1, m1)" by (cases "s m")
  have P1: "P m1" using Cons.prems(2,3) s by auto
  have rest: "\<forall>s\<in>set ss. \<forall>x r' x'. s x = (r', x') \<longrightarrow> P x \<longrightarrow> P x'"
    using Cons.prems(3) by simp
  show ?case
  proof (cases r1)
    case None
    with s Cons.prems(1) have "run_steps ss m1 = (r, m')" by simp
    then show ?thesis using P1 rest by (rule Cons.IH)
  next
    case (Some e)
    with s Cons.prems(1) have "m' = m1" by simp
    with P1 show ?thesis by simp
  qed
qed

lemma run_steps_raises:
  "run_steps ss m = (Some e, m') \<Longrightarrow>
   (\<forall>s\<in>set ss. \<forall>x e' x'. s x = (Some e', x') \<longrightarrow> Q e') \<Longrightarrow> Q e"
proof (induction ss arbitrary: m)
  case Nil
  then show ?case by simp
next
  case (Cons s ss)
  obtain r1 m1 where s: "s m = (r1, m1)" by (cases "s m")
  have rest: "\<forall>s\<in>set ss. \<forall>x e' x'. s x = (Some e', x') \<longrightarrow> Q e'"
    using Cons.prems(2) by simp
  show ?case
  proof (cases r1)
    case None
    with s Cons.prems(1) have "run_steps ss m1 = (Some e, m')" by simp
    then show ?thesis using rest by (rule Cons.IH)
  next
    case (Some e1)
    with s Cons.prems(1) have "s m = (Some e, m1)" by simp
    with Cons.prems(2) show ?thesis by auto
  qed
qed

lemma assign_raises: "assign r upd m = (Some e, m') \<Longrightarrow> r = Inl e"
  by (cases r) (simp_all add: assign_def)

lemma assign_result: "assign r upd m = (x, m') \<Longrightarrow> m' = m \<or> (\<exists>v. r = Inr v \<and> m' = upd v m)"
  by (cases r) (auto simp: assign_def)

lemma field_steps_frame:
  assumes "run_steps (field_steps env received raw parsed) m = (r, m')"
  shows "parts m' = parts m \<and> decode_error m' = decode_error m"
proof (rule run_steps_invariant
    [where P = "\<lambda>x. parts x = parts m \<and> decode_error x = decode_error m", OF assms])
  show "parts m = parts m \<and> decode_error m = decode_error m" by simp
  show "\<forall>s\<in>set (field_steps env received raw parsed). \<forall>x r' x'. s x = (r', x') \<longrightarrow>
          parts x = parts m \<and> decode_error x = decode_error m \<longrightarrow>
          parts x' = parts m \<and> decode_error x' = decode_error m"
    unfolding field_steps_def by (auto dest!: assign_result)
qed

lemma handled_Inl: "handled (Inl e) = caught e"
  by (simp add: handled_def)

lemma field_steps_raise:
  assumes "run_steps (field_steps env received raw parsed) m = (Some e, m')"
    and "parsed_handled parsed"
  shows "caught e"
proof (rule run_steps_raises [where Q = caught, OF assms(1)])
  show "\<forall>s\<in>set (field_steps env received raw parsed). \<forall>x e' x'. s x = (Some e', x') \<longrightarrow> caught e'"
    using assms(2) unfolding field_steps_def parsed_handled_def
    by (auto dest!: assign_raises simp: handled_Inl split: option.splits)
qed

lemma replace_cr_free: "CR \<notin> set (replace_cr s)"
  by (auto simp: replace_cr_def CR_def LF_def)

lemma data_to_write_html:
  "data_to_write env mimepart ''text/html'' = Inr d \<Longrightarrow> CR \<notin> set d"
  by (auto simp: data_to_write_def startswith_def replace_cr_free
      split: sum.splits option.splits)

lemma data_to_write_raises:
  assumes "data_to_write env mimepart ct = Inl e" and "handled (mp_body mimepart)"
    and "\<forall>s. handled (utf8_encode env s)"
  shows "caught e"
proof (cases "mp_body mimepart")
  case (Inl e')
  with assms(1,2) show ?thesis by (simp add: data_to_write_def handled_def)
next
  case (Inr b)
  show ?thesis
  proof (cases b)
    case None
    with Inr assms(1) show ?thesis by (simp add: data_to_write_def)
  next
    case (Some t)
    with Inr assms(1) have "utf8_encode env t = Inl e"
      by (simp add: data_to_write_def split: if_splits sum.splits)
    with assms(3) [rule_format, of t] show ?thesis by (simp add: handled_def)
  qed
qed

lemma mark_error_normalized: "normalized (mark_error now m) = normalized m"
  by (simp add: normalized_def mark_error_keeps)

lemma parse_mimepart_flag:
  "decode_error m \<Longrightarrow> decode_error (snd (parse_mimepart env mimepart index ns m))"
  by (auto simp: parse_mimepart_def Let_def attach_def mark_error_def split: sum.splits)

lemma parse_mimepart_clean:
  assumes "\<not> decode_error (snd (parse_mimepart env mimepart index ns m))"
  shows "accepted mimepart"
proof (rule ccontr)
  assume "\<not> accepted mimepart"
  then have "parse_mimepart env mimepart index ns m = (None, mark_error (utcnow env) m)"
    by (rule parse_mimepart_rejected)
  with assms show False by (simp add: mark_error_sets)
qed

lemma parse_mimepart_index:
  assumes "accepted mimepart"
  shows "map walk_index (parts (snd (parse_mimepart env mimepart index ns m)))
           = map walk_index (parts m) @ [Some index]"
proof -
  from parse_mimepart_accepted [OF assms, of env index ns m]
  obtain p where "snd (parse_mimepart env mimepart index ns m) = attach p m"
    and "walk_index p = Some index" by blast
  then show ?thesis by (simp add: attach_def)
qed

lemma parse_mimepart_raises:
  assumes "parse_mimepart env mimepart index ns m = (Some e, m')"
    and "handled (mp_body mimepart)" and "\<forall>s. handled (utf8_encode env s)"
  shows "caught e"
proof (cases "accepted mimepart")
  case False
  then have "parse_mimepart env mimepart index ns m = (None, mark_error (utcnow env) m)"
    by (rule parse_mimepart_rejected)
  with assms(1) show ?thesis by simp
next
  case True
  from parse_mimepart_accepted [OF True, of env index ns m] assms(1)
  have "data_to_write env mimepart (mp_content_type_value mimepart) = Inl e"
    by (cases "data_to_write env mimepart (mp_content_type_value mimepart)") auto
  then show ?thesis using assms(2,3) by (rule data_to_write_raises)
qed

lemma parse_mimepart_normalized:
  assumes "normalized m"
  shows "normalized (snd (parse_mimepart env mimepart index ns m))"
proof (cases "accepted mimepart")
  case False
  then have "parse_mimepart env mimepart index ns m = (None, mark_error (utcnow env) m)"
    by (rule parse_mimepart_rejected)
  with assms show ?thesis by (simp add: mark_error_normalized)
next
  case True
  from parse_mimepart_accepted [OF True, of env index ns m]
  obtain p where a: "snd (parse_mimepart env mimepart index ns m) = attach p m"
    and ct: "content_type (block p) = Some (mp_content_type_value mimepart)"
    and d: "case data_to_write env mimepart (mp_content_type_value mimepart) of
              Inl e \<Rightarrow> fst (parse_mimepart env mimepart index ns m) = Some e
                       \<and> data (block p) = None
            | Inr d \<Rightarrow> fst (parse_mimepart env mimepart index ns m) = None
                       \<and> data (block p) = Some d"
    by blast
  have "content_type (block p) = Some ''text/html'' \<longrightarrow>
          (\<forall>x. data (block p) = Some x \<longrightarrow> CR \<notin> set x)"
  proof (intro impI allI)
    fix x
    assume h: "content_type (block p) = Some ''text/html''" and x: "data (block p) = Some x"
    from h ct have "mp_content_type_value mimepart = ''text/html''" by simp
    with d x have "data_to_write env mimepart ''text/html'' = Inr x"
      by (auto split: sum.splits)
    then show "CR \<notin> set x" by (rule data_to_write_html)
  qed
  with assms show ?thesis
    unfolding a normalized_def attach_def by simp
qed

lemma parse_mimepart_parts:
  "parts m \<noteq> [] \<Longrightarrow> parts (snd (parse_mimepart env mimepart index ns m)) \<noteq> []"
  by (auto simp: parse_mimepart_def Let_def attach_def mark_error_def split: sum.splits)

section \<open>Properties of the walk\<close>

lemma walk_loop_flag:
  "walk_loop env acct ns i w m = (r, m') \<Longrightarrow> decode_error m \<Longrightarrow> decode_error m'"
proof (induction w arbitrary: i m)
  case Nil
  then show ?case by simp
next
  case (Cons mimepart rest)
  show ?case
  proof (cases "mp_is_multipart mimepart")
    case True
    with Cons.prems have "walk_loop env acct ns (i + 1) rest m = (r, m')" by simp
    then show ?thesis using Cons.prems(2) by (rule Cons.IH)
  next
    case False
    obtain r1 m1 where pm: "parse_mimepart env mimepart (i + 1) ns m = (r1, m1)"
      by (cases "parse_mimepart env mimepart (i + 1) ns m")
    have f1: "decode_error m1"
      using parse_mimepart_flag [OF Cons.prems(2), of env mimepart "i + 1" ns] pm by simp
    show ?thesis
    proof (cases "r1 = None \<and> ical_import env acct mimepart = None")
      case True
      with False pm Cons.prems(1) have "walk_loop env acct ns (i + 1) rest m1 = (r, m')"
        by simp
      then show ?thesis using f1 by (rule Cons.IH)
    next
      case stop: False
      with False pm Cons.prems(1) have "m' = m1"
        by (auto split: option.splits)
      with f1 show ?thesis by simp
    qed
  qed
qed

lemma walk_loop_indices:
  "walk_loop env acct ns i w m = (None, m') \<Longrightarrow> \<not> decode_error m' \<Longrightarrow>
   map walk_index (parts m') = map walk_index (parts m) @ map Some (walk_indices i w)"
proof (induction w arbitrary: i m)
  case Nil
  then show ?case by simp
next
  case (Cons mimepart rest)
  show ?case
  proof (cases "mp_is_multipart mimepart")
    case True
    with Cons.prems have "walk_loop env acct ns (i + 1) rest m = (None, m')" by simp
    from Cons.IH [OF this Cons.prems(2)] True show ?thesis by simp
  next
    case False
    obtain r1 m1 where pm: "parse_mimepart env mimepart (i + 1) ns m = (r1, m1)"
      by (cases "parse_mimepart env mimepart (i + 1) ns m")
    from False pm Cons.prems(1)
    have r1: "r1 = None" and rest: "walk_loop env acct ns (i + 1) rest m1 = (None, m')"
      by (auto split: option.splits)
    have "\<not> decode_error m1"
      using walk_loop_flag [OF rest] Cons.prems(2) by blast
    then have "accepted mimepart"
      using parse_mimepart_clean [of env mimepart "i + 1" ns m] pm by simp
    from parse_mimepart_index [OF this, of env "i + 1" ns m] pm
    have "map walk_index (parts m1) = map walk_index (parts m) @ [Some (i + 1)]" by simp
    with Cons.IH [OF rest Cons.prems(2)] False show ?thesis by simp
  qed
qed

lemma walk_loop_raises:
  "walk_loop env acct ns i w m = (Some e, m') \<Longrightarrow> list_all (part_handled env acct) w \<Longrightarrow>
   \<forall>s. handled (utf8_encode env s) \<Longrightarrow> caught e"
proof (induction w arbitrary: i m)
  case Nil
  then show ?case by simp
next
  case (Cons mimepart rest)
  from Cons.prems(2) have ph: "part_handled env acct mimepart"
    and phs: "list_all (part_handled env acct) rest" by simp_all
  show ?case
  proof (cases "mp_is_multipart mimepart")
    case True
    with Cons.prems(1) have "walk_loop env acct ns (i + 1) rest m = (Some e, m')" by simp
    then show ?thesis using phs Cons.prems(3) by (rule Cons.IH)
  next
    case False
    obtain r1 m1 where pm: "parse_mimepart env mimepart (i + 1) ns m = (r1, m1)"
      by (cases "parse_mimepart env mimepart (i + 1) ns m")
    show ?thesis
    proof (cases r1)
      case (Some e1)
      with False pm Cons.prems(1) have "e1 = e" by simp
      with Some pm have "parse_mimepart env mimepart (i + 1) ns m = (Some e, m1)" by simp
      then show ?thesis
        using ph False Cons.prems(3) by (auto simp: part_handled_def intro: parse_mimepart_raises)
    next
      case None
      show ?thesis
      proof (cases "ical_import env acct mimepart")
        case (Some e2)
        with None False pm Cons.prems(1) have "e2 = e" by simp
        with Some ph False show ?thesis by (simp add: part_handled_def)
      next
        case no: None
        with None False pm Cons.prems(1)
        have "walk_loop env acct ns (i + 1) rest m1 = (Some e, m')" by simp
        then show ?thesis using phs Cons.prems(3) by (rule Cons.IH)
      qed
    qed
  qed
qed

lemma walk_loop_normalized:
  "walk_loop env acct ns i w m = (r, m') \<Longrightarrow> normalized m \<and> parts m \<noteq> [] \<Longrightarrow>
   normalized m' \<and> parts m' \<noteq> []"
proof (induction w arbitrary: i m)
  case Nil
  then show ?case by simp
next
  case (Cons mimepart rest)
  show ?case
  proof (cases "mp_is_multipart mimepart")
    case True
    with Cons.prems(1) have "walk_loop env acct ns (i + 1) rest m = (r, m')" by simp
    then show ?thesis using Cons.prems(2) by (rule Cons.IH)
  next
    case False
    obtain r1 m1 where pm: "parse_mimepart env mimepart (i + 1) ns m = (r1, m1)"
      by (cases "parse_mimepart env mimepart (i + 1) ns m")
    have n1: "normalized m1 \<and> parts m1 \<noteq> []"
      using parse_mimepart_normalized [of m env mimepart "i + 1" ns]
        parse_mimepart_parts [of m env mimepart "i + 1" ns] Cons.prems(2) pm by simp
    show ?thesis
    proof (cases "r1 = None \<and> ical_import env acct mimepart = None")
      case True
      with False pm Cons.prems(1) have "walk_loop env acct ns (i + 1) rest m1 = (r, m')"
        by simp
      then show ?thesis using n1 by (rule Cons.IH)
    next
      case stop: False
      with False pm Cons.prems(1) have "m' = m1"
        by (auto split: option.splits)
      with n1 show ?thesis by simp
    qed
  qed
qed

lemma walk_indices_bounds: "x \<in> set (walk_indices i w) \<Longrightarrow> i < x \<and> x \<le> i + length w"
proof (induction w arbitrary: i)
  case Nil
  then show ?case by simp
next
  case (Cons mimepart rest)
  then show ?case by (fastforce split: if_splits)
qed

lemma walk_indices_increasing: "sorted_wrt (<) (walk_indices i w)"
proof (induction w arbitrary: i)
  case Nil
  then show ?case by simp
next
  case (Cons mimepart rest)
  have "\<forall>x\<in>set (walk_indices (i + 1) rest). i + 1 < x"
    using walk_indices_bounds [of _ "i + 1" rest] by blast
  with Cons.IH [of "i + 1"] show ?case by simp
qed

lemma walk_indices_leaves:
  "list_all (\<lambda>mimepart. \<not> mp_is_multipart mimepart) w \<Longrightarrow>
   walk_indices i w = [i + 1 ..< i + 1 + length w]"
proof (induction w arbitrary: i)
  case Nil
  then show ?case by simp
next
  case (Cons mimepart rest)
  from Cons.prems have leaf: "\<not> mp_is_multipart mimepart"
    and "list_all (\<lambda>mimepart. \<not> mp_is_multipart mimepart) rest" by simp_all
  then have "walk_indices (i + 1) rest = [i + 1 + 1 ..< i + 1 + 1 + length rest]"
    by (simp only: Cons.IH)
  moreover have "[i + 1 ..< i + 1 + length (mimepart # rest)]
      = (i + 1) # [i + 1 + 1 ..< i + 1 + 1 + length rest]"
    by (simp add: upt_conv_Cons del: upt_Suc)
  ultimately show ?case using leaf by (simp only: walk_indices.simps if_False)
qed

section \<open>Properties of sanitization inside the pipeline\<close>

lemma calculate_sanitized_body_frame:
  "calculate_sanitized_body env m = (r, m') \<Longrightarrow>
   decode_error m' = decode_error m \<and> parts m' = parts m"
  by (auto simp: calculate_sanitized_body_def Let_def split: sum.splits prod.splits if_splits)

lemma set_py_strip: "set (py_strip ws u) \<subseteq> set u"
  by (auto simp: py_strip_def py_rstrip_def dest!: set_dropWhileD)

lemma decoded_text_raises:
  "decoded_text env p = Inl e \<Longrightarrow> \<forall>s. handled (utf8_decode env s) \<Longrightarrow> caught e"
proof (cases "data (block p)")
  case None
  assume "decoded_text env p = Inl e"
  with None show ?thesis by (simp add: decoded_text_def caught_def)
next
  case (Some d)
  assume "decoded_text env p = Inl e" and h: "\<forall>s. handled (utf8_decode env s)"
  with Some have "utf8_decode env d = Inl e"
    by (simp add: decoded_text_def split: sum.splits)
  with h [rule_format, of d] show ?thesis by (simp add: handled_def)
qed

lemma first_of_type_raises:
  "first_of_type env ct ps = Inl e \<Longrightarrow> \<forall>s. handled (utf8_decode env s) \<Longrightarrow> caught e"
proof (induction ps)
  case Nil
  then show ?case by simp
next
  case (Cons p ps)
  show ?case
  proof (cases "content_type (block p) = Some ct")
    case True
    with Cons.prems(1) have "decoded_text env p = Inl e"
      by (simp split: sum.splits)
    then show ?thesis using Cons.prems(2) by (rule decoded_text_raises)
  next
    case False
    with Cons show ?thesis by simp
  qed
qed

lemma first_html_normalized:
  assumes "first_of_type env ''text/html'' ps = Inr (Some h)"
    and "\<forall>p\<in>set ps. content_type (block p) = Some ''text/html'' \<longrightarrow>
           (\<forall>d. data (block p) = Some d \<longrightarrow> CR \<notin> set d)"
    and "\<forall>s u. utf8_decode env s = Inr u \<longrightarrow> CR \<in> set u \<longrightarrow> CR \<in> set s"
  shows "CR \<notin> set h"
  using assms(1,2)
proof (induction ps)
  case Nil
  then show ?case by simp
next
  case (Cons p ps)
  show ?case
  proof (cases "content_type (block p) = Some ''text/html''")
    case True
    with Cons.prems(1) have dt: "decoded_text env p = Inr h"
      by (simp split: sum.splits)
    then obtain d u where d: "data (block p) = Some d" and u: "utf8_decode env d = Inr u"
      and h: "h = py_strip (isspace env) u"
      by (auto simp: decoded_text_def split: option.splits sum.splits)
    from Cons.prems(2) True d have "CR \<notin> set d" by simp
    with assms(3) u have "CR \<notin> set u" by blast
    with h set_py_strip [of "isspace env" u] show ?thesis by blast
  next
    case False
    with Cons show ?thesis by simp
  qed
qed

lemma calculate_sanitized_body_raises:
  assumes "calculate_sanitized_body env m = (Some e, m')" and "codec_handled env"
    and "normalized m" and "parts m \<noteq> []"
  shows "caught e"
proof -
  from assms(2) have dec: "\<forall>s. handled (utf8_decode env s)"
    and tags: "\<forall>s. handled (strip_tags env s)"
    and p2h: "\<forall>s. handled (plaintext2html env s)"
    and cr: "\<forall>s u. utf8_decode env s = Inr u \<longrightarrow> CR \<in> set u \<longrightarrow> CR \<in> set s"
    by (simp_all add: codec_handled_def)
  show ?thesis
  proof (cases "body env m")
    case (Inl e')
    with assms(1) have e: "e' = e" by (simp add: calculate_sanitized_body_def)
    from Inl assms(4) have "first_of_type env ''text/html'' (parts m) = Inl e'
        \<or> first_of_type env ''text/plain'' (parts m) = Inl e'"
      by (auto simp: body_def split: sum.splits)
    with dec e show ?thesis by (auto dest: first_of_type_raises)
  next
    case (Inr b)
    obtain plain html where b: "b = (plain, html)" by (cases b)
    from Inr b assms(4) have fh: "first_of_type env ''text/html'' (parts m) = Inr html"
      by (auto simp: body_def split: sum.splits)
    show ?thesis
    proof (cases "truthy html")
      case True
      then obtain h where h: "html = Some h" by (cases html) (simp_all add: truthy_def)
      from fh h have "first_of_type env ''text/html'' (parts m) = Inr (Some h)" by simp
      then have nocr: "CR \<notin> set h"
        using assms(3) [unfolded normalized_def] cr by (rule first_html_normalized)
      with Inr b True h assms(1) have "strip_tags env h = Inl e"
        by (simp add: calculate_sanitized_body_def text_of_def calculate_html_snippet_def
            split: sum.splits)
      with tags [rule_format, of h] show ?thesis by (simp add: handled_def)
    next
      case False
      with Inr b assms(1) have "plaintext2html env (text_of plain) = Inl e"
        by (simp add: calculate_sanitized_body_def Let_def split: if_splits sum.splits)
      with p2h [rule_format, of "text_of plain"] show ?thesis by (simp add: handled_def)
    qed
  qed
qed

section \<open>Properties of the try statement\<close>

lemma run_steps_last:
  "(case s m of (None, m') \<Rightarrow> run_steps [] m' | (Some e, m') \<Rightarrow> (Some e, m')) = s m"
  by (auto split: prod.splits option.splits)

lemma try_block_unparsed:
  "from_string env raw = Inl e \<Longrightarrow>
   try_block env acct ns received raw Message = (Some e, start ns raw)"
  by (simp add: try_block_def start_def)

lemma try_block_parsed:
  assumes "from_string env raw = Inr parsed"
    and "try_block env acct ns received raw Message = (r, m')"
  obtains (fields) e where "r = Some e"
      and "run_steps (field_steps env received raw parsed) (start ns raw) = (Some e, m')"
  | (headers) e m1 where "r = Some e"
      and "run_steps (field_steps env received raw parsed) (start ns raw) = (None, m1)"
      and "p_headers_json parsed = Inl e"
  | (walk) e m1 v where "r = Some e"
      and "run_steps (field_steps env received raw parsed) (start ns raw) = (None, m1)"
      and "p_headers_json parsed = Inr v"
      and "walk_loop env acct ns 0 (p_walk parsed) (attach (headers_part ns v) m1) = (Some e, m')"
  | (body) m1 v m3 where
      "run_steps (field_steps env received raw parsed) (start ns raw) = (None, m1)"
      and "p_headers_json parsed = Inr v"
      and "walk_loop env acct ns 0 (p_walk parsed) (attach (headers_part ns v) m1) = (None, m3)"
      and "calculate_sanitized_body env m3 = (r, m')"
proof -
  let ?fs = "field_steps env received raw parsed"
  let ?tail = "[assign (p_headers_json parsed) (\<lambda>v m. attach (headers_part ns v) m),
                walk_loop env acct ns 0 (p_walk parsed), calculate_sanitized_body env]"
  from assms have run: "run_steps (?fs @ ?tail) (start ns raw) = (r, m')"
    by (simp add: try_block_def start_def)
  obtain r1 m1 where f: "run_steps ?fs (start ns raw) = (r1, m1)"
    by (cases "run_steps ?fs (start ns raw)")
  show thesis
  proof (cases r1)
    case (Some e)
    with run f have "r = Some e" "m' = m1" by (simp_all add: run_steps_append)
    with f Some show thesis by (intro fields) simp_all
  next
    case None
    with run f have tail: "run_steps ?tail m1 = (r, m')" by (simp add: run_steps_append)
    show thesis
    proof (cases "p_headers_json parsed")
      case (Inl e)
      with tail have "r = Some e" by (simp add: assign_def)
      with f None Inl show thesis by (intro headers) simp_all
    next
      case (Inr v)
      obtain r3 m3 where w: "walk_loop env acct ns 0 (p_walk parsed) (attach (headers_part ns v) m1)
          = (r3, m3)"
        by (cases "walk_loop env acct ns 0 (p_walk parsed) (attach (headers_part ns v) m1)")
      show thesis
      proof (cases r3)
        case (Some e)
        with tail Inr w have "r = Some e" "m' = m3" by (simp_all add: assign_def)
        with f None Inr w Some show thesis by (intro walk) simp_all
      next
        case no: None
        with tail Inr w have "calculate_sanitized_body env m3 = (r, m')"
          by (simp add: assign_def run_steps_last)
        with f None Inr w no show thesis by (intro body) simp_all
      qed
    qed
  qed
qed

lemma start_frame: "parts (start ns raw) = [] \<and> \<not> decode_error (start ns raw)"
  by (simp add: start_def Message_def)

lemma with_headers:
  assumes "run_steps (field_steps env received raw parsed) (start ns raw) = (None, m1)"
  shows "parts (attach (headers_part ns v) m1) = [headers_part ns v]"
    and "decode_error (attach (headers_part ns v) m1) = False"
    and "normalized (attach (headers_part ns v) m1)"
  using field_steps_frame [OF assms] start_frame [of ns raw]
  by (simp_all add: attach_def normalized_def headers_part_def Part_def)

lemma try_block_raises:
  assumes "try_block env acct ns received raw Message = (Some e, m')"
    and "failures_handled env acct raw"
  shows "caught e"
proof (cases "from_string env raw")
  case (Inl e')
  with assms(1) have "e' = e" by (simp add: try_block_unparsed)
  with Inl assms(2) show ?thesis by (simp add: failures_handled_def)
next
  case (Inr parsed)
  with assms(2) have ph: "parsed_handled parsed"
    and wh: "list_all (part_handled env acct) (p_walk parsed)"
    and ch: "codec_handled env"
    by (simp_all add: failures_handled_def)
  from ch have enc: "\<forall>s. handled (utf8_encode env s)" by (simp add: codec_handled_def)
  from Inr assms(1) show ?thesis
  proof (cases rule: try_block_parsed)
    case (fields e')
    then show ?thesis using ph by (auto intro: field_steps_raise)
  next
    case (headers e' m1)
    with ph show ?thesis by (simp add: parsed_handled_def handled_def)
  next
    case (walk e' m1 v)
    then show ?thesis using wh enc by (auto intro: walk_loop_raises)
  next
    case (body m1 v m3)
    have "normalized (attach (headers_part ns v) m1) \<and> parts (attach (headers_part ns v) m1) \<noteq> []"
      using with_headers [OF body(1), of v] by simp
    with body(3) have "normalized m3 \<and> parts m3 \<noteq> []"
      by (rule walk_loop_normalized)
    with body(4) ch show ?thesis by (auto intro: calculate_sanitized_body_raises)
  qed
qed

lemma try_block_indices:
  assumes "from_string env raw = Inr parsed"
    and "try_block env acct ns received raw Message = (None, m')" and "\<not> decode_error m'"
  shows "map walk_index (parts m') = map Some (0 # walk_indices 0 (p_walk parsed))"
  using assms(1,2)
proof (cases rule: try_block_parsed)
  case (body m1 v m3)
  from calculate_sanitized_body_frame [OF body(4)] assms(3)
  have same: "parts m' = parts m3" and clean: "\<not> decode_error m3" by simp_all
  from walk_loop_indices [OF body(3) clean] with_headers(1) [OF body(1), of v]
  have "map walk_index (parts m3) = Some 0 # map Some (walk_indices 0 (p_walk parsed))"
    by (simp add: headers_part_def Part_def)
  with same show ?thesis by simp
qed simp_all

section \<open>Properties of the check of the recipient fields\<close>

lemma check_fields_flag:
  "check_fields env acct folder mid raw fs m = Inr msg \<Longrightarrow> decode_error m \<Longrightarrow> decode_error msg"
proof (induction fs arbitrary: m)
  case Nil
  then show ?case by simp
next
  case (Cons f fs)
  from Cons.prems(1) show ?case
  proof (cases "json_field_too_long env (getattr m f)")
    case (Inl e)
    with Cons.prems(1) show ?thesis by simp
  next
    case (Inr too_long)
    show ?thesis
    proof (cases too_long)
      case True
      with Inr Cons.prems(1)
      have "check_fields env acct folder mid raw fs (mark_error (utcnow env) (setattr_empty m f))
              = Inr msg"
        by (simp split: option.splits)
      then show ?thesis by (rule Cons.IH) (simp add: mark_error_sets)
    next
      case False
      with Inr Cons.prems(1) have "check_fields env acct folder mid raw fs m = Inr msg" by simp
      then show ?thesis using Cons.prems(2) by (rule Cons.IH)
    qed
  qed
qed

lemma check_fields_clean:
  "check_fields env acct folder mid raw fs m = Inr msg \<Longrightarrow> \<not> decode_error msg \<Longrightarrow> msg = m"
proof (induction fs arbitrary: m)
  case Nil
  then show ?case by simp
next
  case (Cons f fs)
  show ?case
  proof (cases "json_field_too_long env (getattr m f)")
    case (Inl e)
    with Cons.prems(1) show ?thesis by simp
  next
    case (Inr too_long)
    show ?thesis
    proof (cases too_long)
      case True
      with Inr Cons.prems(1)
      have "check_fields env acct folder mid raw fs (mark_error (utcnow env) (setattr_empty m f))
              = Inr msg"
        by (simp split: option.splits)
      then have "decode_error msg"
        by (rule check_fields_flag) (simp add: mark_error_sets)
      with Cons.prems(2) show ?thesis by simp
    next
      case False
      with Inr Cons.prems(1) have "check_fields env acct folder mid raw fs m = Inr msg" by simp
      then show ?thesis using Cons.prems(2) by (rule Cons.IH)
    qed
  qed
qed

lemma setattr_empty_parts: "parts (setattr_empty m f) = parts m"
  by (cases f) simp_all

lemma check_fields_parts:
  "check_fields env acct folder mid raw fs m = Inr msg \<Longrightarrow> parts msg = parts m"
proof (induction fs arbitrary: m)
  case Nil
  then show ?case by simp
next
  case (Cons f fs)
  show ?case
  proof (cases "json_field_too_long env (getattr m f)")
    case (Inl e)
    with Cons.prems(1) show ?thesis by simp
  next
    case (Inr too_long)
    show ?thesis
    proof (cases too_long)
      case True
      with Inr Cons.prems(1)
      have "check_fields env acct folder mid raw fs (mark_error (utcnow env) (setattr_empty m f))
              = Inr msg"
        by (simp split: option.splits)
      from Cons.IH [OF this] show ?thesis
        by (simp add: mark_error_keeps setattr_empty_parts)
    next
      case False
      with Inr Cons.prems(1) have "check_fields env acct folder mid raw fs m = Inr msg" by simp
      then show ?thesis by (rule Cons.IH)
    qed
  qed
qed

lemma check_fields_returns:
  assumes "report_error env acct folder mid raw = None"
    and "\<forall>v. \<exists>too_long. json_field_too_long env v = Inr too_long"
  shows "\<exists>msg. check_fields env acct folder mid raw fs m = Inr msg"
proof (induction fs arbitrary: m)
  case Nil
  show ?case by simp
next
  case (Cons f fs)
  from assms(2) obtain too_long where "json_field_too_long env (getattr m f) = Inr too_long"
    by blast
  with assms(1) Cons.IH show ?case by simp
qed

section \<open>Properties of \<open>create_from_synced\<close>\<close>

declare check_fields.simps [simp del]

lemma create_from_synced_unnamed:
  "account_namespace acct = None \<Longrightarrow>
   create_from_synced env (Some acct) (Some mid) (Some folder) received (Some (Str raw))
     = Inl AssertionError"
  by (simp add: create_from_synced_def)

lemma create_from_synced_raised:
  "account_namespace acct = Some ns \<Longrightarrow> try_except env acct folder mid ns received raw = Inl e \<Longrightarrow>
   create_from_synced env (Some acct) (Some mid) (Some folder) received (Some (Str raw)) = Inl e"
  by (simp add: create_from_synced_def)

lemma create_from_synced_checked:
  "account_namespace acct = Some ns \<Longrightarrow> try_except env acct folder mid ns received raw = Inr m \<Longrightarrow>
   create_from_synced env (Some acct) (Some mid) (Some folder) received (Some (Str raw))
     = check_fields env acct folder mid raw [To_addr, Cc_addr, Bcc_addr, References] m"
  by (simp add: create_from_synced_def)

lemma create_from_synced_returns:
  assumes "create_from_synced env (Some acct) (Some mid) (Some folder) received (Some (Str raw))
             = Inr msg"
  obtains ns m where "account_namespace acct = Some ns"
    and "try_except env acct folder mid ns received raw = Inr m"
    and "check_fields env acct folder mid raw [To_addr, Cc_addr, Bcc_addr, References] m = Inr msg"
proof (cases "account_namespace acct")
  case None
  from create_from_synced_unnamed [OF None, of env mid folder received raw] assms
  show ?thesis by (simp only: sum.distinct)
next
  case (Some ns)
  show ?thesis
  proof (cases "try_except env acct folder mid ns received raw")
    case (Inl e)
    from create_from_synced_raised [OF Some Inl] assms
    show ?thesis by (simp only: sum.distinct)
  next
    case (Inr m)
    from create_from_synced_checked [OF Some Inr] assms
    have "check_fields env acct folder mid raw [To_addr, Cc_addr, Bcc_addr, References] m = Inr msg"
      by (simp only:)
    with Some Inr show ?thesis by (rule that)
  qed
qed

lemma try_except_result:
  assumes "try_except env acct folder mid ns received raw = Inr m"
  obtains (clean) "try_block env acct ns received raw Message = (None, m)"
  | (marked) e m0 where "try_block env acct ns received raw Message = (Some e, m0)"
      and "caught e" and "m = mark_error (utcnow env) m0"
proof -
  obtain r m0 where t: "try_block env acct ns received raw Message = (r, m0)"
    by (cases "try_block env acct ns received raw Message")
  show ?thesis
  proof (cases r)
    case None
    with t assms have "try_block env acct ns received raw Message = (None, m)"
      by (simp add: try_except_def)
    then show ?thesis by (rule clean)
  next
    case (Some e)
    with t assms have "caught e" and "m = mark_error (utcnow env) m0"
      by (simp_all add: try_except_def split: if_splits option.splits)
    with t Some show ?thesis by (intro marked) simp_all
  qed
qed

lemma try_except_clean:
  assumes "try_except env acct folder mid ns received raw = Inr m" and "\<not> decode_error m"
  shows "try_block env acct ns received raw Message = (None, m)"
  using assms(1)
proof (cases rule: try_except_result)
  case clean
  then show ?thesis .
next
  case (marked e m0)
  with assms(2) show ?thesis by (simp add: mark_error_sets)
qed

lemma parse_mimepart_extends:
  "\<exists>ps. parts (snd (parse_mimepart env mimepart index ns m)) = parts m @ ps"
  by (auto simp: parse_mimepart_def Let_def attach_def mark_error_def split: sum.splits)

lemma walk_loop_extends:
  "walk_loop env acct ns i w m = (r, m') \<Longrightarrow> \<exists>ps. parts m' = parts m @ ps"
proof (induction w arbitrary: i m)
  case Nil
  then show ?case by simp
next
  case (Cons mimepart rest)
  show ?case
  proof (cases "mp_is_multipart mimepart")
    case True
    with Cons.prems have "walk_loop env acct ns (i + 1) rest m = (r, m')" by simp
    then show ?thesis by (rule Cons.IH)
  next
    case False
    obtain r1 m1 where pm: "parse_mimepart env mimepart (i + 1) ns m = (r1, m1)"
      by (cases "parse_mimepart env mimepart (i + 1) ns m")
    from parse_mimepart_extends [of env mimepart "i + 1" ns m] pm
    obtain ps where ps: "parts m1 = parts m @ ps" by auto
    show ?thesis
    proof (cases "r1 = None \<and> ical_import env acct mimepart = None")
      case True
      with False pm Cons.prems have "walk_loop env acct ns (i + 1) rest m1 = (r, m')" by simp
      from Cons.IH [OF this] ps show ?thesis by auto
    next
      case stop: False
      with False pm Cons.prems have "m' = m1" by (auto split: option.splits)
      with ps show ?thesis by simp
    qed
  qed
qed

lemma try_block_headers:
  assumes "from_string env raw = Inr parsed"
    and "try_block env acct ns received raw Message = (None, m')"
  shows "\<exists>v. p_headers_json parsed = Inr v \<and> hd (parts m') = headers_part ns v"
  using assms
proof (cases rule: try_block_parsed)
  case (body m1 v m3)
  from walk_loop_extends [OF body(3)] with_headers(1) [OF body(1), of v]
  obtain ps where "parts m3 = headers_part ns v # ps" by auto
  with calculate_sanitized_body_frame [OF body(4)] body(2) show ?thesis by simp
qed simp_all

lemmas pipeline_defs =
  create_from_synced_def try_except_def try_block_def field_steps_def assign_def
  validate_length_def caught_def Message_def attach_def headers_part_def Part_def
  parse_mimepart_def data_to_write_def startswith_def ical_import_def mark_error_def
  calculate_sanitized_body_def body_def decoded_text_def truthy_def text_of_def
  calculate_html_snippet_def calculate_plaintext_snippet_def SNIPPET_LENGTH_def
  check_fields.simps report_error_def log_decode_error_def
  py_split_nonblank py_split_blank py_strip_def py_rstrip_def unicode_space_def ascii_space_def
  trim_filename_def trim_filename_len_def replace_cr_def CR_def LF_def Let_def

lemmas example_defs =
  example_env_def example_parsed_def example_account_def nested_walk_def many_recipients_def
  container_def leaf_def too_many_def unnamed_account_def undecodable_def

text \<open>
  Claim C4, as the code has it. A message ingested without decode error holds first the
  headers Part, with walk index 0, and then, in document order, one Part for every part of
  the walk that is not multipart; the walk index of a Part is the position, counted from 1,
  of its part in the walk, where a multipart part inside the walk takes a position too. So
  the walk indices are unique and strictly increasing in document order, and they are exactly
  \<open>1..N\<close> when the walk holds \<open>N\<close> parts none of which is multipart, as for a
  single-part message (\<open>N = 1\<close>).
\<close>

theorem walk_index_is_position:
  assumes "create_from_synced env (Some acct) (Some mid) (Some folder) received (Some (Str raw))
             = Inr msg"
    and "from_string env raw = Inr parsed" and "\<not> decode_error msg"
  shows "(\<exists>ns v. account_namespace acct = Some ns \<and> p_headers_json parsed = Inr v
                 \<and> hd (parts msg) = headers_part ns v)
       \<and> map walk_index (parts msg) = map Some (0 # walk_indices 0 (p_walk parsed))
       \<and> sorted_wrt (<) (0 # walk_indices 0 (p_walk parsed))
       \<and> distinct (0 # walk_indices 0 (p_walk parsed))
       \<and> (list_all (\<lambda>mimepart. \<not> mp_is_multipart mimepart) (p_walk parsed) \<longrightarrow>
            walk_indices 0 (p_walk parsed) = [1 ..< length (p_walk parsed) + 1])"
proof -
  from assms(1) obtain ns m where n: "account_namespace acct = Some ns"
    and t: "try_except env acct folder mid ns received raw = Inr m"
    and msg: "check_fields env acct folder mid raw [To_addr, Cc_addr, Bcc_addr, References] m
                = Inr msg"
    by (rule create_from_synced_returns)
  from msg assms(3) have same: "msg = m"
    by (rule check_fields_clean)
  with assms(3) t have tb: "try_block env acct ns received raw Message = (None, m)"
    by (simp add: try_except_clean)
  with assms(2) have idx: "map walk_index (parts m) = map Some (0 # walk_indices 0 (p_walk parsed))"
    using assms(3) same by (simp add: try_block_indices)
  from try_block_headers [OF assms(2) tb] n same
  have hdr: "\<exists>ns v. account_namespace acct = Some ns \<and> p_headers_json parsed = Inr v
                 \<and> hd (parts msg) = headers_part ns v"
    by auto
  have pos: "\<forall>x\<in>set (walk_indices 0 (p_walk parsed)). 0 < x"
    using walk_indices_bounds [of _ 0 "p_walk parsed"] by blast
  have inc: "sorted_wrt (<) (0 # walk_indices 0 (p_walk parsed))"
    using pos walk_indices_increasing [of 0 "p_walk parsed"] by simp
  then have dis: "distinct (0 # walk_indices 0 (p_walk parsed))"
    by (simp only: strict_sorted_iff)
  have leaves: "list_all (\<lambda>mimepart. \<not> mp_is_multipart mimepart) (p_walk parsed) \<longrightarrow>
      walk_indices 0 (p_walk parsed) = [1 ..< length (p_walk parsed) + 1]"
    using walk_indices_leaves [of "p_walk parsed" 0] by simp
  from idx same have "map walk_index (parts msg) = map Some (0 # walk_indices 0 (p_walk parsed))"
    by simp
  with hdr inc dis leaves show ?thesis by (intro conjI)
qed

theorem walk_index_is_position_witness:
  "\<exists>msg. create_from_synced (example_env (\<lambda>raw. Inr (example_parsed [leaf ''text'' ''plain'' ''hi''])))
            (Some example_account) (Some 1) (Some ''INBOX'') None (Some (Str ''raw'')) = Inr msg
         \<and> \<not> decode_error msg
         \<and> hd (parts msg) = headers_part 7 ''[]''
         \<and> map walk_index (parts msg) = [Some 0, Some 1]"
proof -
  let ?env = "example_env (\<lambda>raw. Inr (example_parsed [leaf ''text'' ''plain'' ''hi'']))"
  obtain msg where r: "create_from_synced ?env (Some example_account) (Some 1) (Some ''INBOX'')
      None (Some (Str ''raw'')) = Inr msg" and c: "\<not> decode_error msg"
    by (simp add: pipeline_defs example_defs)
  have p: "from_string ?env ''raw'' = Inr (example_parsed [leaf ''text'' ''plain'' ''hi''])"
    by (simp add: example_env_def)
  from walk_index_is_position [OF r p c]
  have "hd (parts msg) = headers_part 7 ''[]''"
    and "map walk_index (parts msg) = [Some 0, Some 1]"
    by (simp_all add: example_parsed_def leaf_def example_account_def)
  with r c show ?thesis by (intro exI [of _ msg] conjI)
qed

text \<open>
  Claim C4 as stated gives the leaves of an \<open>N\<close>-leaf multipart message the walk indices
  \<open>1..N\<close>. A message whose two leaves sit in a nested \<open>multipart/alternative\<close> is ingested
  without decode error, and its leaves get the walk indices 2 and 3.
\<close>

theorem nested_multipart_counterexample:
  "map_sum id (\<lambda>msg. (decode_error msg, map walk_index (parts msg)))
     (create_from_synced (example_env (\<lambda>raw. Inr (example_parsed nested_walk)))
        (Some example_account) (Some 1) (Some ''INBOX'') None (Some (Str ''raw'')))
     = Inr (False, [Some 0, Some 2, Some 3])"
  by (simp add: pipeline_defs example_defs)

section \<open>The parts of an ingested message are in walk order\<close>

text \<open>
  \<open>parts\<close> lists the parts in the order in which they were created. The walk gives every
  part it creates an index above all earlier ones, so the order of \<open>parts\<close> that body
  selection follows is the walk order.
\<close>

lemma walk_ordered_parts: "parts m' = parts m \<Longrightarrow> walk_ordered m' = walk_ordered m"
  by (simp add: walk_ordered_def)

lemma walk_ordered_attach:
  assumes "walk_ordered m" and "\<forall>q\<in>set (parts m). \<exists>j\<le>i. walk_index q = Some j"
    and "walk_index p = Some (i + 1)"
  shows "walk_ordered (attach p m)"
proof -
  have "\<forall>q\<in>set (parts m). before q p"
  proof
    fix q assume "q \<in> set (parts m)"
    with assms(2) obtain j where "j \<le> i" and "walk_index q = Some j" by blast
    with assms(3) show "before q p" by (simp add: before_def)
  qed
  with assms(1) show ?thesis
    by (simp add: walk_ordered_def attach_def sorted_wrt_append)
qed

lemma parse_mimepart_ordered:
  assumes "walk_ordered m" and "\<forall>q\<in>set (parts m). \<exists>j\<le>i. walk_index q = Some j"
    and "parse_mimepart env mimepart (i + 1) ns m = (r, m')"
  shows "walk_ordered m' \<and> (\<forall>q\<in>set (parts m'). \<exists>j\<le>i + 1. walk_index q = Some j)"
proof (cases "accepted mimepart")
  case False
  with assms(3) have "m' = mark_error (utcnow env) m"
    by (simp add: parse_mimepart_rejected)
  then have "parts m' = parts m" by (simp add: mark_error_keeps)
  with assms(1,2) show ?thesis
    by (auto simp: walk_ordered_def intro: le_SucI)
next
  case True
  from parse_mimepart_accepted [OF True, of env "i + 1" ns m] assms(3)
  obtain p where m': "m' = attach p m" and p: "walk_index p = Some (i + 1)"
    by auto
  from assms(1,2) p have "walk_ordered (attach p m)" by (rule walk_ordered_attach)
  moreover have "\<forall>q\<in>set (parts (attach p m)). \<exists>j\<le>i + 1. walk_index q = Some j"
    using assms(2) p by (auto simp: attach_def intro: le_SucI)
  ultimately show ?thesis using m' by simp
qed

lemma walk_loop_ordered:
  "walk_loop env acct ns i w m = (r, m') \<Longrightarrow>
   walk_ordered m \<and> (\<forall>q\<in>set (parts m). \<exists>j\<le>i. walk_index q = Some j) \<Longrightarrow>
   walk_ordered m'"
proof (induction w arbitrary: i m)
  case Nil
  then show ?case by simp
next
  case (Cons mimepart rest)
  from Cons.prems(2) have later: "\<forall>q\<in>set (parts m). \<exists>j\<le>i + 1. walk_index q = Some j"
    by (auto intro: le_SucI)
  show ?case
  proof (cases "mp_is_multipart mimepart")
    case True
    with Cons.prems(1) have "walk_loop env acct ns (i + 1) rest m = (r, m')" by simp
    moreover from Cons.prems(2) later
    have "walk_ordered m \<and> (\<forall>q\<in>set (parts m). \<exists>j\<le>i + 1. walk_index q = Some j)" by simp
    ultimately show ?thesis by (rule Cons.IH)
  next
    case False
    obtain r1 m1 where pm: "parse_mimepart env mimepart (i + 1) ns m = (r1, m1)"
      by (cases "parse_mimepart env mimepart (i + 1) ns m")
    from Cons.prems(2) have o: "walk_ordered m"
      and b: "\<forall>q\<in>set (parts m). \<exists>j\<le>i. walk_index q = Some j" by simp_all
    note o1 = parse_mimepart_ordered [OF o b pm]
    show ?thesis
    proof (cases "r1 = None \<and> ical_import env acct mimepart = None")
      case True
      with False pm Cons.prems(1) have "walk_loop env acct ns (i + 1) rest m1 = (r, m')" by simp
      then show ?thesis using o1 by (rule Cons.IH)
    next
      case stop: False
      with False pm Cons.prems(1) have "m' = m1" by (auto split: option.splits)
      with o1 show ?thesis by simp
    qed
  qed
qed

lemma headers_first_ordered:
  assumes "parts m1 = []"
  shows "walk_ordered (attach (headers_part ns v) m1)
         \<and> (\<forall>q\<in>set (parts (attach (headers_part ns v) m1)). \<exists>j\<le>0. walk_index q = Some j)"
  using assms by (simp add: walk_ordered_def attach_def headers_part_def Part_def)

lemma sanitization_input_ordered:
  assumes "run_steps (field_steps env received raw parsed) (start ns raw) = (None, m1)"
    and "walk_loop env acct ns 0 (p_walk parsed) (attach (headers_part ns v) m1) = (r, m3)"
  shows "walk_ordered m3 \<and> parts m3 \<noteq> []"
proof -
  from field_steps_frame [OF assms(1)] start_frame [of ns raw] have e: "parts m1 = []" by simp
  from assms(2) headers_first_ordered [OF e] have "walk_ordered m3" by (rule walk_loop_ordered)
  moreover from walk_loop_extends [OF assms(2)] have "parts m3 \<noteq> []"
    by (auto simp: attach_def)
  ultimately show ?thesis by simp
qed

lemma try_block_ordered:
  assumes "try_block env acct ns received raw Message = (r, m')"
  shows "walk_ordered m'"
proof (cases "from_string env raw")
  case (Inl e)
  from try_block_unparsed [OF Inl, of acct ns received] assms have "m' = start ns raw" by simp
  then show ?thesis using start_frame [of ns raw] by (simp add: walk_ordered_def)
next
  case (Inr parsed)
  let ?fs = "field_steps env received raw parsed"
  let ?tail = "[assign (p_headers_json parsed) (\<lambda>v m. attach (headers_part ns v) m),
                walk_loop env acct ns 0 (p_walk parsed), calculate_sanitized_body env]"
  from Inr assms have run: "run_steps (?fs @ ?tail) (start ns raw) = (r, m')"
    by (simp add: try_block_def start_def)
  obtain r1 m1 where f: "run_steps ?fs (start ns raw) = (r1, m1)"
    by (cases "run_steps ?fs (start ns raw)")
  from field_steps_frame [OF f] start_frame [of ns raw] have e: "parts m1 = []" by simp
  show ?thesis
  proof (cases r1)
    case (Some e1)
    with run f have "m' = m1" by (simp add: run_steps_append)
    with e show ?thesis by (simp add: walk_ordered_def)
  next
    case None
    with run f have tail: "run_steps ?tail m1 = (r, m')" by (simp add: run_steps_append)
    show ?thesis
    proof (cases "p_headers_json parsed")
      case (Inl e1)
      with tail have "m' = m1" by (simp add: assign_def)
      with e show ?thesis by (simp add: walk_ordered_def)
    next
      case hv: (Inr v)
      obtain r3 m3 where w: "walk_loop env acct ns 0 (p_walk parsed) (attach (headers_part ns v) m1)
          = (r3, m3)"
        by (cases "walk_loop env acct ns 0 (p_walk parsed) (attach (headers_part ns v) m1)")
      from f None have f': "run_steps ?fs (start ns raw) = (None, m1)" by simp
      from sanitization_input_ordered [OF f' w] have o3: "walk_ordered m3" by simp
      show ?thesis
      proof (cases r3)
        case (Some e3)
        with tail hv w have "m' = m3" by (simp add: assign_def)
        with o3 show ?thesis by simp
      next
        case no: None
        with tail hv w have "calculate_sanitized_body env m3 = (r, m')"
          by (simp add: assign_def run_steps_last)
        from calculate_sanitized_body_frame [OF this] o3 show ?thesis
          by (simp add: walk_ordered_def)
      qed
    qed
  qed
qed

lemma create_from_synced_ordered:
  assumes "create_from_synced env (Some acct) (Some mid) (Some folder) received (Some (Str raw))
             = Inr msg"
  shows "walk_ordered msg"
proof -
  from assms obtain ns m where t: "try_except env acct folder mid ns received raw = Inr m"
    and c: "check_fields env acct folder mid raw [To_addr, Cc_addr, Bcc_addr, References] m
              = Inr msg"
    by (rule create_from_synced_returns)
  from t have "walk_ordered m"
  proof (cases rule: try_except_result)
    case clean
    then show ?thesis by (rule try_block_ordered)
  next
    case (marked e m0)
    from marked(1) have "walk_ordered m0" by (rule try_block_ordered)
    with marked(3) show ?thesis by (simp add: walk_ordered_def mark_error_keeps)
  qed
  with check_fields_parts [OF c] show ?thesis by (simp add: walk_ordered_def)
qed

section \<open>The recipient fields that are too long\<close>

text \<open>
  Claim C3. A field among \<open>to_addr\<close>, \<open>cc_addr\<close>, \<open>bcc_addr\<close> and \<open>references\<close> that is too
  long is cleared and the message is marked as in error, while the unrelated fields that
  earlier steps populated stay populated. The code clears the field, sets the mark and keeps
  the subject, but \<open>_mark_error\<close> also assigns \<open>size = 0\<close>: for the three-byte message
  \<open>raw\<close> sent to three addresses, with at most two allowed, the \<open>try\<close> statement leaves
  size 3, and the message returned has size 0.
\<close>

theorem oversized_recipients_reset_size:
  "map_sum id size_attr
     (try_except (example_env (\<lambda>raw. Inr many_recipients)) example_account ''INBOX'' 1 7 None
        ''raw'') = Inr (Some 3)
   \<and> map_sum id (\<lambda>msg. (to_addr msg, decode_error msg, subject msg, size_attr msg))
       (create_from_synced (example_env (\<lambda>raw. Inr many_recipients))
          (Some example_account) (Some 1) (Some ''INBOX'') None (Some (Str ''raw'')))
       = Inr (Some [], True, Some ''Lunch'', Some 0)"
  by (simp add: pipeline_defs example_defs)

section \<open>What crosses the boundary of \<open>create_from_synced\<close>\<close>

lemma try_except_returns:
  assumes "failures_handled env acct raw"
    and "report_error env acct folder mid raw = None"
  shows "\<exists>m. try_except env acct folder mid ns received raw = Inr m"
proof -
  obtain r m0 where t: "try_block env acct ns received raw Message = (r, m0)"
    by (cases "try_block env acct ns received raw Message")
  show ?thesis
  proof (cases r)
    case None
    with t show ?thesis by (simp add: try_except_def)
  next
    case (Some e)
    with t assms(1) have "caught e" by (auto intro: try_block_raises)
    with t Some assms(2) show ?thesis by (simp add: try_except_def)
  qed
qed

text \<open>
  Claim C1, as the code has it. \<open>create_from_synced\<close>, called with an account, a message
  id, a folder name and a byte string, returns a Message when the account has a namespace,
  every failure of tokenization, header parsing, part parsing and body sanitization is of a
  class that the handler names (\<open>DecodingError\<close>, \<open>AttributeError\<close>, \<open>RuntimeError\<close>,
  \<open>TypeError\<close>, \<open>ValueError\<close>), every failure of calendar import is of one of these
  classes or of a class that the handler around the import names, decoding a stored text
  brings in no carriage return, writing the raw message to the error directory does not
  fail, and measuring the recipient fields and the references does not fail.
\<close>

theorem ingestion_returns_message:
  assumes "account_namespace acct = Some ns"
    and "failures_handled env acct raw"
    and "report_error env acct folder mid raw = None"
    and "\<forall>v. \<exists>too_long. json_field_too_long env v = Inr too_long"
  shows "\<exists>msg. create_from_synced env (Some acct) (Some mid) (Some folder) received
                 (Some (Str raw)) = Inr msg"
proof -
  from try_except_returns [OF assms(2,3)]
  obtain m where t: "try_except env acct folder mid ns received raw = Inr m" by blast
  from check_fields_returns [OF assms(3,4)]
  obtain msg where
    "check_fields env acct folder mid raw [To_addr, Cc_addr, Bcc_addr, References] m = Inr msg"
    by blast
  with create_from_synced_checked [OF assms(1) t] show ?thesis by simp
qed

lemma example_handled:
  "failures_handled (example_env (\<lambda>raw. Inr (example_parsed [undecodable]))) example_account ''raw''"
  by (simp add: failures_handled_def codec_handled_def parsed_handled_def part_handled_def
      handled_def caught_def ical_import_def example_defs)

theorem ingestion_returns_message_witness:
  "failures_handled (example_env (\<lambda>raw. Inr (example_parsed [undecodable]))) example_account ''raw''
   \<and> (\<exists>msg. create_from_synced (example_env (\<lambda>raw. Inr (example_parsed [undecodable])))
               (Some example_account) (Some 1) (Some ''INBOX'') None (Some (Str ''raw''))
             = Inr msg)"
proof -
  let ?env = "example_env (\<lambda>raw. Inr (example_parsed [undecodable]))"
  have n: "account_namespace example_account = Some 7" by (simp add: example_account_def)
  have r: "report_error ?env example_account ''INBOX'' 1 ''raw'' = None"
    by (simp add: report_error_def log_decode_error_def example_env_def)
  have j: "\<forall>v. \<exists>too_long. json_field_too_long ?env v = Inr too_long"
    by (simp add: example_env_def)
  from ingestion_returns_message [OF n example_handled r j] example_handled
  show ?thesis by simp
qed

text \<open>
  Claim C1 as stated, for every call with an account, a message id, a folder name and a
  byte string: an account without namespace fails the assertion at the head of the method;
  an exception of the tokenizer that is of no class the handler names goes through; and
  so does the exception of a failed write of the error file, raised inside the handler.
\<close>

theorem exception_crosses_boundary_counterexample:
  "create_from_synced (example_env (\<lambda>raw. Inr (example_parsed [leaf ''text'' ''plain'' ''hi''])))
     (Some unnamed_account) (Some 1) (Some ''INBOX'') None (Some (Str ''raw''))
     = Inl AssertionError
   \<and> create_from_synced (example_env (\<lambda>raw. Inl OtherException))
       (Some example_account) (Some 1) (Some ''INBOX'') None (Some (Str ''raw''))
       = Inl OtherException
   \<and> create_from_synced
       ((example_env (\<lambda>raw. Inl DecodingError))\<lparr> write_file := \<lambda>errfile s. Some OtherException \<rparr>)
       (Some example_account) (Some 1) (Some ''INBOX'') None (Some (Str ''raw''))
       = Inl OtherException"
  by (simp add: pipeline_defs example_defs)

end
